theory Spec2Isabelle
  imports Complex_Main
begin

section \<open>Values the script computes with\<close>

text \<open>
  JavaScript numbers are IEEE 754 double-precision values. A finite one is kept as the
  rational it denotes; the two zeros are one value (both print as \<open>0\<close> in a template
  literal) and there is one \<open>NaN\<close>.
\<close>

datatype jsnum = Fin rat | PosInf | NegInf | NaN

text \<open>
  Rounding to nearest, ties to even, in the binary64 format: 53 significant bits,
  exponents from -1022 to 1023. For a positive \<open>q\<close>, \<open>exponent q\<close> is the \<open>e\<close> with
  \<open>2^e \<le> q < 2^(e+1)\<close>; below \<open>2^-1022\<close> the spacing of the subnormal numbers is used; a
  rounded magnitude of \<open>2^1024\<close> or more is infinite.
\<close>

definition pow2 :: "int \<Rightarrow> rat" where
  "pow2 k = (if 0 \<le> k then 2 ^ nat k else 1 / 2 ^ nat (- k))"

function expo_up :: "rat \<Rightarrow> int" where
  "expo_up q = (if 2 \<le> q then expo_up (q / 2) + 1 else 0)"
  by pat_completeness auto
termination
proof (relation "measure (\<lambda>q. nat \<lfloor>q\<rfloor>)")
  show "wf (measure (\<lambda>q::rat. nat \<lfloor>q\<rfloor>))" by simp
  fix q :: rat assume q: "2 \<le> q"
  then have n: "1 \<le> \<lfloor>q\<rfloor>" by (simp add: le_floor_iff)
  then have "(1::rat) \<le> of_int \<lfloor>q\<rfloor>" by linarith
  moreover have "q < of_int \<lfloor>q\<rfloor> + 1" by linarith
  ultimately have "q / 2 < of_int \<lfloor>q\<rfloor>" by linarith
  then have "\<lfloor>q / 2\<rfloor> < \<lfloor>q\<rfloor>" by (simp add: floor_less_iff)
  with n have "nat \<lfloor>q / 2\<rfloor> < nat \<lfloor>q\<rfloor>" by linarith
  then show "(q / 2, q) \<in> measure (\<lambda>q. nat \<lfloor>q\<rfloor>)" by simp
qed

function expo_down :: "rat \<Rightarrow> int" where
  "expo_down q = (if 0 < q \<and> q < 1 then expo_down (q * 2) - 1 else 0)"
  by pat_completeness auto
termination
proof (relation "measure (\<lambda>q. nat \<lfloor>1 / q\<rfloor>)")
  show "wf (measure (\<lambda>q::rat. nat \<lfloor>1 / q\<rfloor>))" by simp
  fix q :: rat assume q: "0 < q \<and> q < 1"
  define x where "x = 1 / q"
  from q have "1 \<le> x" by (simp add: x_def)
  then have n: "1 \<le> \<lfloor>x\<rfloor>" by (simp add: le_floor_iff)
  then have "(1::rat) \<le> of_int \<lfloor>x\<rfloor>" by linarith
  moreover have "x < of_int \<lfloor>x\<rfloor> + 1" by linarith
  ultimately have "x / 2 < of_int \<lfloor>x\<rfloor>" by linarith
  then have "\<lfloor>x / 2\<rfloor> < \<lfloor>x\<rfloor>" by (simp add: floor_less_iff)
  with n have "nat \<lfloor>x / 2\<rfloor> < nat \<lfloor>x\<rfloor>" by linarith
  then have "nat \<lfloor>(1 / q) / 2\<rfloor> < nat \<lfloor>1 / q\<rfloor>" unfolding x_def .
  then show "(q * 2, q) \<in> measure (\<lambda>q. nat \<lfloor>1 / q\<rfloor>)" by (simp add: mult.commute)
qed

declare expo_up.simps [simp del] expo_down.simps [simp del]

definition exponent :: "rat \<Rightarrow> int" where
  "exponent q = (if 1 \<le> q then expo_up q else expo_down q)"

definition round_half_even :: "rat \<Rightarrow> int" where
  "round_half_even q =
     (let f = \<lfloor>q\<rfloor>;
          d = q - of_int f
      in if d < 1 / 2 then f else if 1 / 2 < d then f + 1 else if even f then f else f + 1)"

definition round_double :: "rat \<Rightarrow> jsnum" where
  "round_double q =
     (if q = 0 then Fin 0
      else
        let a = \<bar>q\<bar>;
            e = max (exponent a) (- 1022);
            ulp = pow2 (e - 52);
            m = of_int (round_half_even (a / ulp)) * ulp
        in if 2 ^ 1024 \<le> m then (if 0 < q then PosInf else NegInf)
           else Fin (if 0 < q then m else - m))"

text \<open>
  The four operations of the script on numbers: the exact result, rounded; the
  non-finite cases as IEEE 754 has them. A divisor that is zero is the positive zero
  (the width or the height of a bounding rectangle).
\<close>

fun js_add :: "jsnum \<Rightarrow> jsnum \<Rightarrow> jsnum" where
  "js_add NaN _ = NaN"
| "js_add _ NaN = NaN"
| "js_add (Fin a) (Fin b) = round_double (a + b)"
| "js_add (Fin a) PosInf = PosInf"
| "js_add (Fin a) NegInf = NegInf"
| "js_add PosInf NegInf = NaN"
| "js_add PosInf _ = PosInf"
| "js_add NegInf PosInf = NaN"
| "js_add NegInf _ = NegInf"

fun js_sub :: "jsnum \<Rightarrow> jsnum \<Rightarrow> jsnum" where
  "js_sub NaN _ = NaN"
| "js_sub _ NaN = NaN"
| "js_sub (Fin a) (Fin b) = round_double (a - b)"
| "js_sub (Fin a) PosInf = NegInf"
| "js_sub (Fin a) NegInf = PosInf"
| "js_sub PosInf PosInf = NaN"
| "js_sub PosInf _ = PosInf"
| "js_sub NegInf NegInf = NaN"
| "js_sub NegInf _ = NegInf"

fun js_mul :: "jsnum \<Rightarrow> jsnum \<Rightarrow> jsnum" where
  "js_mul NaN _ = NaN"
| "js_mul _ NaN = NaN"
| "js_mul (Fin a) (Fin b) = round_double (a * b)"
| "js_mul (Fin a) PosInf = (if a = 0 then NaN else if 0 < a then PosInf else NegInf)"
| "js_mul (Fin a) NegInf = (if a = 0 then NaN else if 0 < a then NegInf else PosInf)"
| "js_mul PosInf (Fin b) = (if b = 0 then NaN else if 0 < b then PosInf else NegInf)"
| "js_mul NegInf (Fin b) = (if b = 0 then NaN else if 0 < b then NegInf else PosInf)"
| "js_mul PosInf PosInf = PosInf"
| "js_mul PosInf NegInf = NegInf"
| "js_mul NegInf PosInf = NegInf"
| "js_mul NegInf NegInf = PosInf"

fun js_div :: "jsnum \<Rightarrow> jsnum \<Rightarrow> jsnum" where
  "js_div NaN _ = NaN"
| "js_div _ NaN = NaN"
| "js_div (Fin a) (Fin b) =
     (if b = 0 then (if a = 0 then NaN else if 0 < a then PosInf else NegInf)
      else round_double (a / b))"
| "js_div (Fin a) _ = Fin 0"
| "js_div PosInf (Fin b) = (if 0 \<le> b then PosInf else NegInf)"
| "js_div NegInf (Fin b) = (if 0 \<le> b then NegInf else PosInf)"
| "js_div _ _ = NaN"

text \<open>A rational that is a double: rounding leaves it as it is.\<close>

definition is_double :: "rat \<Rightarrow> bool" where
  "is_double q = (round_double q = Fin q)"

text \<open>
  The value of an inline style property: a literal string of the script (the empty
  string for a property that is not set), or one of the two template literals of the
  script with the numbers it interpolates:
  \<^verbatim>\<open>translate(${tx}px, ${ty}px) rotate(${r}deg)\<close> and
  \<^verbatim>\<open>perspective(600px) rotateX(${rx}deg) rotateY(${ry}deg)\<close>.
\<close>

datatype cssval =
    Str string
  | TranslateRotate jsnum jsnum int
  | PerspectiveRotate jsnum jsnum

section \<open>The document\<close>

text \<open>
  An element is known by its identity; the store maps each identity to the parts of the
  element the script reads or writes: its attributes, its inline style and its class
  list. Two names of the script may denote the same element. The inline style maps each
  property name the script uses to the value last assigned under that name (shorthand
  properties are not expanded).
\<close>

type_synonym elem = nat

record element =
  attributes :: "string \<rightharpoonup> string"
  style :: "string \<Rightarrow> cssval"
  classList :: "string set"

text \<open>The one exception the script can raise: a method call on \<open>null\<close>.\<close>

datatype js_error = TypeError

text \<open>
  The page: the store, what the script's queries return on the document, the two
  capabilities of the runtime it probes, and the variables its closures hold.
\<close>

record page =
  store :: "elem \<Rightarrow> element"
  documentElement :: elem
  matchMedia :: "bool option"
    \<comment> \<open>\<open>None\<close>: no \<open>window.matchMedia\<close>; \<open>Some b\<close>: the query's \<open>matches\<close>\<close>
  hasIntersectionObserver :: bool
    \<comment> \<open>\<open>'IntersectionObserver' in window\<close>\<close>
  toggle :: "elem option"
  nav :: "elem option"
  reveals :: "elem list"
  marquees :: "(elem \<times> elem option) list"
    \<comment> \<open>each \<open>.marquee\<close> with its \<open>m.querySelector('.marquee-content')\<close>\<close>
  hero :: "elem option"
  leaves :: "elem list"
    \<comment> \<open>\<open>hero.querySelectorAll('.leaf')\<close>\<close>
  cards :: "elem list"
  prefersReducedMotion :: bool
  io :: "jsnum option"
    \<comment> \<open>the observer of the reveal section: \<open>None\<close> until constructed, then its threshold\<close>
  observed :: "elem set"
    \<comment> \<open>the observation targets of that observer\<close>
  usingKeyboard :: bool

definition setAttribute :: "elem \<Rightarrow> string \<Rightarrow> string \<Rightarrow> page \<Rightarrow> page" where
  "setAttribute el name v p =
     p\<lparr>store := (store p)(el := (store p el)\<lparr>attributes := (attributes (store p el))(name \<mapsto> v)\<rparr>)\<rparr>"

definition getAttribute :: "elem \<Rightarrow> string \<Rightarrow> page \<Rightarrow> string option" where
  "getAttribute el name p = attributes (store p el) name"

definition setStyle :: "elem \<Rightarrow> string \<Rightarrow> cssval \<Rightarrow> page \<Rightarrow> page" where
  "setStyle el prop v p =
     p\<lparr>store := (store p)(el := (store p el)\<lparr>style := (style (store p el))(prop := v)\<rparr>)\<rparr>"

definition getStyle :: "elem \<Rightarrow> string \<Rightarrow> page \<Rightarrow> cssval" where
  "getStyle el prop p = style (store p el) prop"

definition classList_add :: "elem \<Rightarrow> string \<Rightarrow> page \<Rightarrow> page" where
  "classList_add el c p =
     p\<lparr>store := (store p)(el := (store p el)\<lparr>classList := insert c (classList (store p el))\<rparr>)\<rparr>"

definition classList_remove :: "elem \<Rightarrow> string \<Rightarrow> page \<Rightarrow> page" where
  "classList_remove el c p =
     p\<lparr>store := (store p)(el := (store p el)\<lparr>classList := classList (store p el) - {c}\<rparr>)\<rparr>"

definition hasClass :: "elem \<Rightarrow> string \<Rightarrow> page \<Rightarrow> bool" where
  "hasClass el c p = (c \<in> classList (store p el))"

section \<open>Mobile navigation toggle\<close>

text \<open>The inline styles \<open>openNav\<close> assigns to the nav, in the order of the source.\<close>

definition openNav_styles :: "(string \<times> string) list" where
  "openNav_styles =
     [(''display'', ''block''),
      (''flexDirection'', ''column''),
      (''position'', ''absolute''),
      (''right'', ''28px''),
      (''top'', ''72px''),
      (''background'', ''rgba(255,255,255,0.95)''),
      (''padding'', ''12px''),
      (''borderRadius'', ''10px''),
      (''boxShadow'', ''0 10px 30px rgba(10,20,10,0.08)'')]"

text \<open>The inline styles \<open>closeNav\<close> assigns, in the order of the source.\<close>

definition closeNav_styles :: "(string \<times> string) list" where
  "closeNav_styles =
     [(''display'', ''''),
      (''flexDirection'', ''''),
      (''position'', ''''),
      (''right'', ''''),
      (''top'', ''''),
      (''background'', ''''),
      (''padding'', ''''),
      (''borderRadius'', ''''),
      (''boxShadow'', '''')]"

text \<open>
  \<open>openNav\<close> and \<open>closeNav\<close> return early without a nav; with a nav and no toggle,
  \<open>toggle.setAttribute\<close> throws before anything is written.
\<close>

definition openNav :: "page \<Rightarrow> js_error + page" where
  "openNav p =
     (case nav p of
        None \<Rightarrow> Inr p
      | Some n \<Rightarrow>
          (case toggle p of
             None \<Rightarrow> Inl TypeError
           | Some t \<Rightarrow>
               Inr (fold (\<lambda>(prop, v). setStyle n prop (Str v)) openNav_styles
                      (setAttribute t ''aria-expanded'' ''true'' p))))"

definition closeNav :: "page \<Rightarrow> js_error + page" where
  "closeNav p =
     (case nav p of
        None \<Rightarrow> Inr p
      | Some n \<Rightarrow>
          (case toggle p of
             None \<Rightarrow> Inl TypeError
           | Some t \<Rightarrow>
               Inr (fold (\<lambda>(prop, v). setStyle n prop (Str v)) closeNav_styles
                      (setAttribute t ''aria-expanded'' ''false'' p))))"

text \<open>
  A click anywhere in the document, by what the two \<open>contains\<close> tests of the script
  return on its target.
\<close>

record click =
  in_nav :: bool
  in_toggle :: bool

text \<open>
  The three listeners of the section. The listener on the toggle returns the page and
  whether it reached \<open>e.stopPropagation()\<close>; an exception leaves the listener at once.
\<close>

definition toggle_click_listener :: "page \<Rightarrow> page \<times> bool" where
  "toggle_click_listener p =
     (case toggle p of
        None \<Rightarrow> (p, False)
      | Some t \<Rightarrow>
          (let expanded = (getAttribute t ''aria-expanded'' p = Some ''true'') in
           case (if expanded then closeNav p else openNav p) of
             Inl err \<Rightarrow> (p, False)
           | Inr p' \<Rightarrow> (p', True)))"

definition document_click_listener :: "click \<Rightarrow> page \<Rightarrow> page" where
  "document_click_listener e p =
     (case nav p of
        None \<Rightarrow> p
      | Some n \<Rightarrow>
          if getStyle n ''display'' p = Str ''block'' \<and> \<not> in_nav e \<and> \<not> in_toggle e
          then (case closeNav p of Inl err \<Rightarrow> p | Inr p' \<Rightarrow> p')
          else p)"

definition document_keydown_listener :: "string \<Rightarrow> page \<Rightarrow> page" where
  "document_keydown_listener key p =
     (case nav p of
        None \<Rightarrow> p
      | Some n \<Rightarrow>
          if key = ''Escape'' \<and> getStyle n ''display'' p = Str ''block''
          then (case closeNav p of Inl err \<Rightarrow> p | Inr p' \<Rightarrow> p')
          else p)"

text \<open>The listeners are installed only when both elements were found.\<close>

definition nav_installed :: "page \<Rightarrow> bool" where
  "nav_installed p = (toggle p \<noteq> None \<and> nav p \<noteq> None)"

text \<open>
  The dispatch of one click. The event bubbles from its target to the document: the
  toggle's listener runs first when the target is inside the toggle, and the document's
  listener runs unless propagation was stopped on the way.
\<close>

definition click_dispatch :: "click \<Rightarrow> page \<Rightarrow> page" where
  "click_dispatch e p =
     (if nav_installed p then
        (if in_toggle e then
           (let (p', stopped) = toggle_click_listener p in
            if stopped then p' else document_click_listener e p')
         else document_click_listener e p)
      else p)"

section \<open>Scroll reveal\<close>

text \<open>
  One entry of an intersection notification: its target, and the two fields of
  \<open>IntersectionObserverEntry\<close> that tell how much of the target is in view. The
  callback of the script reads \<open>isIntersecting\<close> only.
\<close>

record entry =
  target :: elem
  isIntersecting :: bool
  intersectionRatio :: rat

definition unobserve :: "elem \<Rightarrow> page \<Rightarrow> page" where
  "unobserve el p = p\<lparr>observed := observed p - {el}\<rparr>"

definition observe :: "elem \<Rightarrow> page \<Rightarrow> page" where
  "observe el p = p\<lparr>observed := insert el (observed p)\<rparr>"

definition io_entry :: "entry \<Rightarrow> page \<Rightarrow> page" where
  "io_entry en p =
     (if isIntersecting en
      then unobserve (target en) (classList_add (target en) ''visible'' p)
      else p)"

definition io_callback :: "entry list \<Rightarrow> page \<Rightarrow> page" where
  "io_callback entries p = fold io_entry entries p"

text \<open>
  The reveal section of startup. The observer is constructed with the option
  \<open>{ threshold: 0.12 }\<close>: the number that the literal \<open>0.12\<close> denotes.
\<close>

definition init_reveal :: "page \<Rightarrow> page" where
  "init_reveal p =
     (if \<not> prefersReducedMotion p \<and> hasIntersectionObserver p
      then fold observe (reveals p) (p\<lparr>io := Some (round_double (12 / 100)), observed := {}\<rparr>)
      else fold (\<lambda>el. classList_add el ''visible'') (reveals p) (p\<lparr>io := None, observed := {}\<rparr>))"

section \<open>Marquee controls\<close>

datatype marquee_event = PointerEnter | PointerLeave | FocusIn | FocusOut

text \<open>
  The four listeners of a marquee write \<open>animationPlayState\<close> of its content; a marquee
  without content has none.
\<close>

definition marquee_listener :: "marquee_event \<Rightarrow> elem \<Rightarrow> page \<Rightarrow> page" where
  "marquee_listener ev content p =
     (case ev of
        PointerEnter \<Rightarrow> setStyle content ''animationPlayState'' (Str ''paused'') p
      | PointerLeave \<Rightarrow> setStyle content ''animationPlayState'' (Str '''') p
      | FocusIn \<Rightarrow> setStyle content ''animationPlayState'' (Str ''paused'') p
      | FocusOut \<Rightarrow> setStyle content ''animationPlayState'' (Str '''') p)"

definition init_marquee :: "elem \<times> elem option \<Rightarrow> page \<Rightarrow> page" where
  "init_marquee m p =
     (case snd m of
        None \<Rightarrow> p
      | Some content \<Rightarrow>
          if prefersReducedMotion p
          then setStyle content ''transform'' (Str ''translateX(0)'')
                 (setStyle content ''animation'' (Str ''none'') p)
          else p)"

definition init_marquees :: "page \<Rightarrow> page" where
  "init_marquees p = fold init_marquee (marquees p) p"

section \<open>Hero parallax and card tilt\<close>

text \<open>
  A pointer event's client coordinates, and a bounding rectangle. The browser gives
  each of them as a double; the functions below take any rational.
\<close>

record pointer =
  clientX :: rat
  clientY :: rat

record rect =
  rect_left :: rat
  rect_top :: rat
  rect_width :: rat
  rect_height :: rat

definition hero_x :: "pointer \<Rightarrow> rect \<Rightarrow> jsnum" where
  "hero_x e r =
     js_sub (js_div (js_sub (Fin (clientX e)) (Fin (rect_left r))) (Fin (rect_width r))) (Fin (1 / 2))"

definition hero_y :: "pointer \<Rightarrow> rect \<Rightarrow> jsnum" where
  "hero_y e r =
     js_sub (js_div (js_sub (Fin (clientY e)) (Fin (rect_top r))) (Fin (rect_height r))) (Fin (1 / 2))"

text \<open>
  The body of \<open>leaves.forEach((leaf, i) => ...)\<close> of the move listener. The index \<open>i\<close> is
  the position in the node list, a natural number; \<open>(i + 1) * 6\<close> is computed on numbers,
  \<open>i % 2\<close> on the index (the remainder of an integer is exact), and the base rotation is
  one of the two integer literals.
\<close>

definition depth :: "nat \<Rightarrow> jsnum" where
  "depth i = js_mul (js_add (Fin (of_nat i)) (Fin 1)) (Fin 6)"

definition leaf_move :: "jsnum \<Rightarrow> jsnum \<Rightarrow> elem \<Rightarrow> nat \<Rightarrow> page \<Rightarrow> page" where
  "leaf_move x y leaf i p =
     (let baseRotate = (if i mod 2 \<noteq> 0 then - 12 else 6)
      in setStyle leaf ''transform''
           (TranslateRotate (js_mul x (depth i)) (js_mul y (depth i)) baseRotate) p)"

definition hero_pointermove :: "pointer \<Rightarrow> rect \<Rightarrow> page \<Rightarrow> page" where
  "hero_pointermove e r p =
     (let x = hero_x e r;
          y = hero_y e r
      in fold (\<lambda>(i, leaf). leaf_move x y leaf i) (enumerate 0 (leaves p)) p)"

definition hero_pointerleave :: "page \<Rightarrow> page" where
  "hero_pointerleave p = fold (\<lambda>leaf. setStyle leaf ''transform'' (Str '''')) (leaves p) p"

definition hero_installed :: "page \<Rightarrow> bool" where
  "hero_installed p = (hero p \<noteq> None \<and> \<not> prefersReducedMotion p)"

definition card_px :: "pointer \<Rightarrow> rect \<Rightarrow> jsnum" where
  "card_px e r = js_div (js_sub (Fin (clientX e)) (Fin (rect_left r))) (Fin (rect_width r))"

definition card_py :: "pointer \<Rightarrow> rect \<Rightarrow> jsnum" where
  "card_py e r = js_div (js_sub (Fin (clientY e)) (Fin (rect_top r))) (Fin (rect_height r))"

definition card_pointermove :: "elem \<Rightarrow> pointer \<Rightarrow> rect \<Rightarrow> page \<Rightarrow> page" where
  "card_pointermove el e r p =
     (let px = card_px e r;
          py = card_py e r;
          rotateX = js_mul (js_sub py (Fin (1 / 2))) (Fin 6);
          rotateY = js_mul (js_sub px (Fin (1 / 2))) (Fin (- 6))
      in setStyle el ''transform'' (PerspectiveRotate rotateX rotateY) p)"

definition card_pointerleave :: "elem \<Rightarrow> page \<Rightarrow> page" where
  "card_pointerleave el p = setStyle el ''transform'' (Str '''') p"

section \<open>Focus outlines for keyboard users\<close>

definition window_keydown_listener :: "string \<Rightarrow> page \<Rightarrow> page" where
  "window_keydown_listener key p =
     (if key = ''Tab''
      then classList_add (documentElement p) ''using-keyboard'' (p\<lparr>usingKeyboard := True\<rparr>)
      else p)"

definition window_mousedown_listener :: "page \<Rightarrow> page" where
  "window_mousedown_listener p =
     (if usingKeyboard p
      then classList_remove (documentElement p) ''using-keyboard'' (p\<lparr>usingKeyboard := False\<rparr>)
      else p)"

section \<open>Startup and events\<close>

text \<open>
  The \<open>DOMContentLoaded\<close> listener, in the order of the source. What it installs is
  decided by values that never change afterwards, so the event handlers below test
  those values where the script tests them once.
\<close>

definition startup :: "page \<Rightarrow> page" where
  "startup p =
     (let p1 = p\<lparr>prefersReducedMotion := (case matchMedia p of None \<Rightarrow> False | Some m \<Rightarrow> m)\<rparr>;
          p2 = init_reveal p1;
          p3 = init_marquees p2
      in p3\<lparr>usingKeyboard := False\<rparr>)"

text \<open>
  The events the script listens to. An event on a marquee or a card names the element
  by its index in the list the script iterates over; a pointer move carries the
  bounding rectangle the listener reads.
\<close>

datatype event =
    Click click
  | KeyDown string
  | MouseDown
  | Intersect "entry list"
  | Marquee nat marquee_event
  | HeroPointerMove pointer rect
  | HeroPointerLeave
  | CardPointerMove nat pointer rect
  | CardPointerLeave nat

fun handle :: "event \<Rightarrow> page \<Rightarrow> page" where
  "handle (Click e) p = click_dispatch e p"
| "handle (KeyDown key) p =
     window_keydown_listener key
       (if nav_installed p then document_keydown_listener key p else p)"
| "handle MouseDown p = window_mousedown_listener p"
| "handle (Intersect entries) p = (if io p \<noteq> None then io_callback entries p else p)"
| "handle (Marquee k ev) p =
     (if k < length (marquees p)
      then (case snd (marquees p ! k) of
              None \<Rightarrow> p
            | Some content \<Rightarrow> marquee_listener ev content p)
      else p)"
| "handle (HeroPointerMove e r) p = (if hero_installed p then hero_pointermove e r p else p)"
| "handle HeroPointerLeave p = (if hero_installed p then hero_pointerleave p else p)"
| "handle (CardPointerMove k e r) p =
     (if \<not> prefersReducedMotion p \<and> k < length (cards p)
      then card_pointermove (cards p ! k) e r p
      else p)"
| "handle (CardPointerLeave k) p =
     (if \<not> prefersReducedMotion p \<and> k < length (cards p)
      then card_pointerleave (cards p ! k) p
      else p)"

definition run :: "event list \<Rightarrow> page \<Rightarrow> page" where
  "run es p = fold handle es p"

text \<open>The entries an event delivers to the observer's callback.\<close>

fun entries_of :: "event \<Rightarrow> entry list" where
  "entries_of (Intersect entries) = entries"
| "entries_of _ = []"

section \<open>What the properties are stated with\<close>

subsection \<open>Observations of a page\<close>

text \<open>
  The nav is open when its inline display is \<open>block\<close>, which is what the outside-click
  and Escape listeners test; the exposed signal is \<open>aria-expanded = "true"\<close> on the
  toggle, which is what the toggle's listener tests.
\<close>

definition nav_open :: "page \<Rightarrow> bool" where
  "nav_open p = (case nav p of None \<Rightarrow> False | Some n \<Rightarrow> getStyle n ''display'' p = Str ''block'')"

definition aria_expanded :: "page \<Rightarrow> bool" where
  "aria_expanded p =
     (case toggle p of None \<Rightarrow> False | Some t \<Rightarrow> getAttribute t ''aria-expanded'' p = Some ''true'')"

text \<open>The nine inline style properties of the nav named by the specification.\<close>

definition nav_inline_props :: "string set" where
  "nav_inline_props =
     {''display'', ''flexDirection'', ''position'', ''right'', ''top'', ''background'',
      ''padding'', ''borderRadius'', ''boxShadow''}"

text \<open>A marquee content whose animation is disabled and whose transform is the identity.\<close>

definition stopped :: "elem \<Rightarrow> page \<Rightarrow> bool" where
  "stopped c p =
     (getStyle c ''animation'' p = Str ''none'' \<and>
      getStyle c ''transform'' p = Str ''translateX(0)'')"

text \<open>What no event handler writes: the query results and the startup decisions.\<close>

definition shape ::
  "page \<Rightarrow> elem \<times> bool option \<times> bool \<times> elem option \<times> elem option \<times> elem list \<times>
     (elem \<times> elem option) list \<times> elem option \<times> elem list \<times> elem list \<times> bool \<times>
     jsnum option" where
  "shape p =
     (documentElement p, matchMedia p, hasIntersectionObserver p, toggle p, nav p, reveals p,
      marquees p, hero p, leaves p, cards p, prefersReducedMotion p, io p)"

subsection \<open>The observer's notifications\<close>

text \<open>The comparison \<open>a <= b\<close> of two JavaScript numbers.\<close>

fun js_le :: "jsnum \<Rightarrow> jsnum \<Rightarrow> bool" where
  "js_le NaN _ = False"
| "js_le _ NaN = False"
| "js_le (Fin a) (Fin b) = (a \<le> b)"
| "js_le NegInf _ = True"
| "js_le _ PosInf = True"
| "js_le _ _ = False"

text \<open>
  The callback of the script reads \<open>isIntersecting\<close> and never the ratio. The contract of
  the observer that the page holds: an entry reports \<open>isIntersecting\<close> exactly when the
  visible fraction of its target is at or above the threshold the observer was
  constructed with.
\<close>

definition reports_threshold :: "page \<Rightarrow> entry \<Rightarrow> bool" where
  "reports_threshold p en =
     (case io p of
        None \<Rightarrow> False
      | Some t \<Rightarrow> isIntersecting en = js_le t (Fin (intersectionRatio en)))"

text \<open>
  An event notifies that the visible fraction of \<open>r\<close> is at or above \<open>c\<close>, as the
  comparison \<open>ratio >= c\<close> of JavaScript has it.
\<close>

definition crosses :: "rat \<Rightarrow> elem \<Rightarrow> event \<Rightarrow> bool" where
  "crosses c r e =
     (\<exists>en \<in> set (entries_of e).
        target en = r \<and> js_le (round_double c) (Fin (intersectionRatio en)))"

text \<open>An event delivers an entry for \<open>r\<close> that reports \<open>isIntersecting\<close>.\<close>

definition intersecting_for :: "elem \<Rightarrow> event \<Rightarrow> bool" where
  "intersecting_for r e = (\<exists>en \<in> set (entries_of e). target en = r \<and> isIntersecting en)"

subsection \<open>The paused state the specification asks for\<close>

text \<open>
  Following the specification's words, not the script: whether the pointer hovers over
  marquee \<open>k\<close> and whether the focus is within it after the events, and the paused state
  as the disjunction of the two.
\<close>

definition pointer_hovering :: "nat \<Rightarrow> event list \<Rightarrow> bool" where
  "pointer_hovering k es =
     fold (\<lambda>e h. if e = Marquee k PointerEnter then True
                  else if e = Marquee k PointerLeave then False else h) es False"

definition focus_within :: "nat \<Rightarrow> event list \<Rightarrow> bool" where
  "focus_within k es =
     fold (\<lambda>e f. if e = Marquee k FocusIn then True
                  else if e = Marquee k FocusOut then False else f) es False"

definition spec_paused :: "nat \<Rightarrow> event list \<Rightarrow> bool" where
  "spec_paused k es = (pointer_hovering k es \<or> focus_within k es)"

subsection \<open>A sample page\<close>

text \<open>
  A page with a toggle, a nav, two reveal elements, a marquee with content and one
  without, a hero with three leaves and two cards, every element with no attribute, no
  inline style and no class; the same page with the nav open, and with reduced motion
  preferred.
\<close>

definition blank :: element where
  "blank = \<lparr>attributes = Map.empty, style = (\<lambda>prop. Str ''''), classList = {}\<rparr>"

definition demo_page :: page where
  "demo_page =
     \<lparr>store = (\<lambda>el. blank), documentElement = 0, matchMedia = Some False,
      hasIntersectionObserver = True, toggle = Some 1, nav = Some 2, reveals = [3, 4],
      marquees = [(5, Some 6), (7, None)], hero = Some 8, leaves = [9, 10, 11],
      cards = [12, 13], prefersReducedMotion = False, io = None, observed = {},
      usingKeyboard = False\<rparr>"

definition demo_open_page :: page where
  "demo_open_page =
     demo_page\<lparr>store := (\<lambda>el. if el = 2
        then blank\<lparr>style := (\<lambda>prop. if prop = ''display'' then Str ''block'' else Str '''')\<rparr>
        else blank)\<rparr>"

definition demo_reduced :: page where
  "demo_reduced = demo_page\<lparr>matchMedia := Some True\<rparr>"

text \<open>Clicks on the toggle and outside both the toggle and the nav.\<close>

definition on_toggle :: click where
  "on_toggle = \<lparr>in_nav = False, in_toggle = True\<rparr>"

definition outside :: click where
  "outside = \<lparr>in_nav = False, in_toggle = False\<rparr>"

text \<open>A bounding rectangle, its centre and its top-left corner.\<close>

definition demo_rect :: rect where
  "demo_rect = \<lparr>rect_left = 10, rect_top = 20, rect_width = 200, rect_height = 100\<rparr>"

definition demo_center :: pointer where
  "demo_center = \<lparr>clientX = 110, clientY = 70\<rparr>"

definition demo_corner :: pointer where
  "demo_corner = \<lparr>clientX = 10, clientY = 20\<rparr>"

text \<open>
  A bounding rectangle whose width and height do not divide the pointer's offset
  exactly, and a pointer inside it.
\<close>

definition demo_box :: rect where
  "demo_box = \<lparr>rect_left = 0, rect_top = 0, rect_width = 3, rect_height = 3\<rparr>"

definition demo_off :: pointer where
  "demo_off = \<lparr>clientX = 2, clientY = 2\<rparr>"

text \<open>
  Notifications for reveal element 3: a sixteenth in view, an eighth in view, and out of
  view again.
\<close>

definition demo_below :: entry where
  "demo_below = \<lparr>target = 3, isIntersecting = False, intersectionRatio = 1 / 16\<rparr>"

definition demo_above :: entry where
  "demo_above = \<lparr>target = 3, isIntersecting = True, intersectionRatio = 1 / 8\<rparr>"

definition demo_gone :: entry where
  "demo_gone = \<lparr>target = 3, isIntersecting = False, intersectionRatio = 0\<rparr>"

section \<open>Rounding at the values the properties use\<close>

lemma floor_numeral_div:
  "\<lfloor>(numeral a :: rat) / numeral b\<rfloor> = numeral a div numeral b"
proof -
  have "\<lfloor>(of_int (numeral a) :: rat) / of_int (numeral b)\<rfloor> = numeral a div numeral b"
    by (rule floor_divide_of_int_eq)
  then show ?thesis by (simp only: of_int_numeral)
qed

lemmas double_eval = exponent_def expo_up.simps expo_down.simps pow2_def round_half_even_def
  Let_def floor_numeral_div

lemma round_double_0: "round_double 0 = Fin 0"
  by (simp add: round_double_def)

text \<open>The literal \<open>0.12\<close> denotes a double just below twelve hundredths.\<close>

lemma round_double_literal_012:
  "round_double (12 / 100) = Fin (1080863910568919 / 9007199254740992)"
  "round_double (3 / 25) = Fin (1080863910568919 / 9007199254740992)"
  by (simp add: round_double_def Let_def, simp add: double_eval)+

text \<open>Two thirds is not a double; it rounds down.\<close>

lemma round_double_two_thirds:
  "round_double (2 / 3) = Fin (6004799503160661 / 9007199254740992)"
  by (simp add: round_double_def Let_def) (simp add: double_eval)

text \<open>A tie goes to the even neighbour: the integers next to \<open>2^53\<close>.\<close>

lemma round_double_ties:
  "round_double 9007199254740993 = Fin 9007199254740992"
  "round_double 9007199254740995 = Fin 9007199254740996"
  by (simp add: round_double_def Let_def, simp add: double_eval)+

lemma is_double_small:
  "is_double (1 / 2)" "is_double (- (1 / 2))" "is_double 2" "is_double 3" "is_double (- 3)"
  "is_double 50" "is_double 100"
  unfolding is_double_def
  by (simp add: round_double_def Let_def, simp add: double_eval)+

lemma is_double_simps:
  "round_double (1 / 2) = Fin (1 / 2)" "round_double (- (1 / 2)) = Fin (- (1 / 2))"
  "round_double 2 = Fin 2" "round_double 3 = Fin 3" "round_double (- 3) = Fin (- 3)"
  "round_double 50 = Fin 50" "round_double 100 = Fin 100"
  using is_double_small by (simp_all add: is_double_def)

text \<open>A natural number below \<open>2^53\<close> is a double.\<close>

lemma expo_up_bounds:
  assumes "1 \<le> q" "q < 2 ^ Suc k"
  shows "0 \<le> expo_up q \<and> expo_up q \<le> int k"
  using assms
proof (induction k arbitrary: q)
  case 0
  then have "\<not> 2 \<le> q" by simp
  then show ?case by (simp add: expo_up.simps)
next
  case (Suc k)
  show ?case
  proof (cases "2 \<le> q")
    case True
    then have "1 \<le> q / 2" by simp
    moreover from Suc.prems(2) have "q / 2 < 2 ^ Suc k" by simp
    ultimately have "0 \<le> expo_up (q / 2) \<and> expo_up (q / 2) \<le> int k" by (rule Suc.IH)
    moreover have "expo_up q = expo_up (q / 2) + 1"
      using True by (subst expo_up.simps) simp
    ultimately show ?thesis by simp
  next
    case False
    then show ?thesis by (simp add: expo_up.simps)
  qed
qed

lemma round_half_even_of_int: "round_half_even (of_int z) = z"
  by (simp add: round_half_even_def)

lemma round_double_of_nat:
  assumes "n < 2 ^ 53"
  shows "round_double (of_nat n) = Fin (of_nat n)"
proof (cases "n = 0")
  case True
  then show ?thesis by (simp add: round_double_0)
next
  case False
  define a :: rat where "a = of_nat n"
  have a1: "1 \<le> a" using False by (simp add: a_def)
  have "(of_nat n :: rat) < of_nat (2 ^ 53)" using assms by (simp only: of_nat_less_iff)
  then have a2: "a < 2 ^ Suc 52" by (simp add: a_def)
  define e where "e = expo_up a"
  have e: "0 \<le> e \<and> e \<le> 52"
    using expo_up_bounds[OF a1 a2] by (simp add: e_def)
  define j where "j = nat (52 - e)"
  have ulp: "pow2 (max (exponent a) (- 1022) - 52) = 1 / 2 ^ j"
  proof -
    have "max (exponent a) (- 1022) = e" using a1 e by (simp add: exponent_def e_def)
    moreover have "pow2 (e - 52) = 1 / 2 ^ j"
    proof (cases "e = 52")
      case True then show ?thesis by (simp add: pow2_def j_def)
    next
      case False
      then have "\<not> 0 \<le> e - 52" using e by simp
      moreover have "nat (- (e - 52)) = j" by (simp add: j_def)
      ultimately show ?thesis by (simp add: pow2_def)
    qed
    ultimately show ?thesis by simp
  qed
  have q: "a * 2 ^ j = of_int (int n * 2 ^ j)" by (simp add: a_def)
  have m: "of_int (round_half_even (a * 2 ^ j)) / 2 ^ j = a"
    unfolding q round_half_even_of_int by (simp add: a_def)
  have big: "\<not> (2::rat) ^ 1024 \<le> a"
  proof -
    have "(2::rat) ^ Suc 52 \<le> 2 ^ 1024" by (rule power_increasing) simp_all
    with a2 show ?thesis by linarith
  qed
  have "round_double a = Fin a"
    using a1 big by (simp add: round_double_def Let_def ulp m del: power_Suc)
  then show ?thesis by (simp add: a_def)
qed

text \<open>
  The depth factor of a leaf is exact for every index a node list can have (the length
  of a node list is an unsigned 32-bit integer).
\<close>

lemma depth_exact:
  assumes "(i + 1) * 6 < 2 ^ 53"
  shows "depth i = Fin (of_nat ((i + 1) * 6))"
proof -
  from assms have "i + 1 < 2 ^ 53" by simp
  then have "round_double (of_nat (i + 1)) = Fin (of_nat (i + 1))" by (rule round_double_of_nat)
  then have 1: "js_add (Fin (of_nat i)) (Fin 1) = Fin (of_nat (i + 1))"
    by (simp add: add.commute)
  have "round_double (of_nat ((i + 1) * 6)) = Fin (of_nat ((i + 1) * 6))"
    using assms by (rule round_double_of_nat)
  then have "js_mul (Fin (of_nat (i + 1))) (Fin 6) = Fin (of_nat ((i + 1) * 6))" by simp
  with 1 show ?thesis by (simp only: depth_def)
qed

lemma depth_node_list:
  assumes "i < n" "n < 2 ^ 32"
  shows "depth i = Fin (of_nat ((i + 1) * 6))"
proof -
  from assms have "i + 1 < 2 ^ 32" by simp
  then have "(i + 1) * 6 < 2 ^ 32 * 6" by simp
  also have "(2::nat) ^ 32 * 6 < 2 ^ 53" by simp
  finally show ?thesis by (rule depth_exact)
qed

lemma depth_first: "depth 0 = Fin 6" "depth 1 = Fin 12"
proof -
  show "depth 0 = Fin 6" using depth_exact[of 0] by simp
  show "depth 1 = Fin 12" using depth_exact[of 1] by simp
qed

section \<open>The pointer's position over a bounding rectangle\<close>

text \<open>At the centre and at the top-left corner the normalized position is exact.\<close>

lemma normalized_center:
  assumes "0 < w" "is_double (w / 2)" "c = l + w / 2"
  shows "js_div (js_sub (Fin c) (Fin l)) (Fin w) = Fin (1 / 2)"
proof -
  have "js_sub (Fin c) (Fin l) = Fin (w / 2)"
    using assms(2,3) by (simp add: is_double_def)
  moreover have "(w / 2) / w = 1 / 2"
    using assms(1) by simp
  ultimately show ?thesis
    using assms(1) by (simp add: is_double_simps)
qed

lemma normalized_corner:
  assumes "0 < w" "c = l"
  shows "js_div (js_sub (Fin c) (Fin l)) (Fin w) = Fin 0"
  using assms by (simp add: round_double_0)

lemma offset_center: "js_sub (Fin (1 / 2)) (Fin (1 / 2)) = Fin 0"
  by (simp add: round_double_0)

lemma tilt_center:
  "js_mul (js_sub (Fin (1 / 2)) (Fin (1 / 2))) (Fin 6) = Fin 0"
  "js_mul (js_sub (Fin (1 / 2)) (Fin (1 / 2))) (Fin (- 6)) = Fin 0"
  by (simp_all add: round_double_0)

lemma tilt_corner:
  "js_mul (js_sub (Fin 0) (Fin (1 / 2))) (Fin 6) = Fin (- 3)"
  "js_mul (js_sub (Fin 0) (Fin (1 / 2))) (Fin (- 6)) = Fin 3"
  by (simp_all add: is_double_simps)

text \<open>
  Two thirds of the way across: the quotient rounds down to \<open>0.6666666666666666\<close>, the
  offset from the centre is \<open>0.16666666666666663\<close>, and six times the offset rounds to
  \<open>0.9999999999999998\<close>, one unit in the last place below 1.
\<close>

lemma round_double_offsets:
  "round_double (1501199875790165 / 9007199254740992) = Fin (1501199875790165 / 9007199254740992)"
  "round_double (4503599627370495 / 4503599627370496) = Fin (4503599627370495 / 4503599627370496)"
  "round_double (- (4503599627370495 / 4503599627370496)) =
     Fin (- (4503599627370495 / 4503599627370496))"
  by (simp add: round_double_def Let_def, simp add: double_eval)+

lemma demo_off_normalized:
  "js_div (js_sub (Fin 2) (Fin 0)) (Fin 3) = Fin (6004799503160661 / 9007199254740992)"
  by (simp add: is_double_simps round_double_two_thirds)

lemma demo_off_offset:
  "js_sub (Fin (6004799503160661 / 9007199254740992)) (Fin (1 / 2)) =
     Fin (1501199875790165 / 9007199254740992)"
  by (simp add: round_double_offsets)

lemma demo_off_times:
  "js_mul (Fin (1501199875790165 / 9007199254740992)) (Fin 6) =
     Fin (4503599627370495 / 4503599627370496)"
  "js_mul (Fin (1501199875790165 / 9007199254740992)) (Fin (- 6)) =
     Fin (- (4503599627370495 / 4503599627370496))"
  by (simp_all add: round_double_offsets)

lemma demo_off_facts:
  "hero_x demo_off demo_box = Fin (1501199875790165 / 9007199254740992)"
  "hero_y demo_off demo_box = Fin (1501199875790165 / 9007199254740992)"
  "card_px demo_off demo_box = Fin (6004799503160661 / 9007199254740992)"
  "card_py demo_off demo_box = Fin (6004799503160661 / 9007199254740992)"
  by (simp_all only: hero_x_def hero_y_def card_px_def card_py_def demo_off_def demo_box_def
      pointer.simps rect.simps demo_off_normalized demo_off_offset)

lemma demo_rect_facts:
  "0 < rect_width demo_rect \<and> is_double (rect_width demo_rect / 2) \<and>
   clientX demo_center = rect_left demo_rect + rect_width demo_rect / 2 \<and>
   0 < rect_height demo_rect \<and> is_double (rect_height demo_rect / 2) \<and>
   clientY demo_center = rect_top demo_rect + rect_height demo_rect / 2"
  "0 < rect_width demo_rect \<and> 0 < rect_height demo_rect \<and>
   clientX demo_corner = rect_left demo_rect \<and> clientY demo_corner = rect_top demo_rect"
  by (simp_all add: demo_rect_def demo_center_def demo_corner_def is_double_small)

section \<open>Writes and what they leave alone\<close>

lemma shapeD:
  assumes "shape q = shape p"
  shows "documentElement q = documentElement p"
    "matchMedia q = matchMedia p"
    "hasIntersectionObserver q = hasIntersectionObserver p"
    "toggle q = toggle p"
    "nav q = nav p"
    "reveals q = reveals p"
    "marquees q = marquees p"
    "hero q = hero p"
    "leaves q = leaves p"
    "cards q = cards p"
    "prefersReducedMotion q = prefersReducedMotion p"
    "io q = io p"
  using assms by (simp_all add: shape_def)

lemma shape_prims:
  "shape (setStyle el k v p) = shape p"
  "shape (setAttribute el a w p) = shape p"
  "shape (classList_add el c p) = shape p"
  "shape (classList_remove el c p) = shape p"
  "shape (observe el p) = shape p"
  "shape (unobserve el p) = shape p"
  "shape (p\<lparr>usingKeyboard := b\<rparr>) = shape p"
  "shape (p\<lparr>observed := S\<rparr>) = shape p"
  by (simp_all add: shape_def setStyle_def setAttribute_def classList_add_def
      classList_remove_def observe_def unobserve_def)

lemma observed_prims:
  "observed (setStyle el k v p) = observed p"
  "observed (setAttribute el a w p) = observed p"
  "observed (classList_add el c p) = observed p"
  "observed (classList_remove el c p) = observed p"
  "observed (observe el p) = insert el (observed p)"
  "observed (unobserve el p) = observed p - {el}"
  by (simp_all add: setStyle_def setAttribute_def classList_add_def
      classList_remove_def observe_def unobserve_def)

lemma usingKeyboard_prims:
  "usingKeyboard (setStyle el k v p) = usingKeyboard p"
  "usingKeyboard (setAttribute el a w p) = usingKeyboard p"
  "usingKeyboard (classList_add el c p) = usingKeyboard p"
  "usingKeyboard (classList_remove el c p) = usingKeyboard p"
  "usingKeyboard (observe el p) = usingKeyboard p"
  "usingKeyboard (unobserve el p) = usingKeyboard p"
  by (simp_all add: setStyle_def setAttribute_def classList_add_def
      classList_remove_def observe_def unobserve_def)

lemma getStyle_prims:
  "getStyle el k (setStyle el' k' v p) = (if el = el' \<and> k = k' then v else getStyle el k p)"
  "getStyle el k (setAttribute el' a w p) = getStyle el k p"
  "getStyle el k (classList_add el' c p) = getStyle el k p"
  "getStyle el k (classList_remove el' c p) = getStyle el k p"
  "getStyle el k (observe el' p) = getStyle el k p"
  "getStyle el k (unobserve el' p) = getStyle el k p"
  "getStyle el k (p\<lparr>usingKeyboard := b\<rparr>) = getStyle el k p"
  "getStyle el k (p\<lparr>observed := S\<rparr>) = getStyle el k p"
  "getStyle el k (p\<lparr>io := t\<rparr>) = getStyle el k p"
  "getStyle el k (p\<lparr>prefersReducedMotion := b\<rparr>) = getStyle el k p"
  by (simp_all add: getStyle_def setStyle_def setAttribute_def classList_add_def
      classList_remove_def observe_def unobserve_def)

lemma getAttribute_prims:
  "getAttribute el a (setStyle el' k v p) = getAttribute el a p"
  "getAttribute el a (setAttribute el' a' w p) =
     (if el = el' \<and> a = a' then Some w else getAttribute el a p)"
  "getAttribute el a (classList_add el' c p) = getAttribute el a p"
  "getAttribute el a (classList_remove el' c p) = getAttribute el a p"
  "getAttribute el a (observe el' p) = getAttribute el a p"
  "getAttribute el a (unobserve el' p) = getAttribute el a p"
  "getAttribute el a (p\<lparr>usingKeyboard := b\<rparr>) = getAttribute el a p"
  by (simp_all add: getAttribute_def setStyle_def setAttribute_def classList_add_def
      classList_remove_def observe_def unobserve_def)

lemma hasClass_prims:
  "hasClass el c (setStyle el' k v p) = hasClass el c p"
  "hasClass el c (setAttribute el' a w p) = hasClass el c p"
  "hasClass el c (classList_add el' c' p) = (el = el' \<and> c = c' \<or> hasClass el c p)"
  "hasClass el c (classList_remove el' c' p) = (\<not> (el = el' \<and> c = c') \<and> hasClass el c p)"
  "hasClass el c (observe el' p) = hasClass el c p"
  "hasClass el c (unobserve el' p) = hasClass el c p"
  "hasClass el c (p\<lparr>usingKeyboard := b\<rparr>) = hasClass el c p"
  "hasClass el c (p\<lparr>observed := S\<rparr>) = hasClass el c p"
  "hasClass el c (p\<lparr>io := t\<rparr>) = hasClass el c p"
  "hasClass el c (p\<lparr>prefersReducedMotion := b\<rparr>) = hasClass el c p"
  by (auto simp: hasClass_def setStyle_def setAttribute_def classList_add_def
      classList_remove_def observe_def unobserve_def)

lemma fold_preserve:
  assumes "\<And>x q. obs (f x q) = obs q"
  shows "obs (fold f xs p) = obs p"
  by (induction xs arbitrary: p) (simp_all add: assms)

lemma fold_invariant:
  assumes "\<And>x q. I q \<Longrightarrow> I (f x q)" and "I p"
  shows "I (fold f xs p)"
  using assms(2) by (induction xs arbitrary: p) (simp_all add: assms(1))

lemma fold_invariant_set:
  assumes "\<And>x q. x \<in> set xs \<Longrightarrow> I q \<Longrightarrow> I (f x q)" and "I p"
  shows "I (fold f xs p)"
  using assms by (induction xs arbitrary: p) simp_all

section \<open>Properties of openNav and closeNav\<close>

text \<open>A run of style assignments to one element: the last assignment to a property wins.\<close>

lemma getStyle_fold_setStyle:
  "getStyle el k (fold (\<lambda>(prop, v). setStyle n prop (Str v)) kvs p) =
     (if el = n
      then (case map_of (rev kvs) k of None \<Rightarrow> getStyle el k p | Some v \<Rightarrow> Str v)
      else getStyle el k p)"
proof (induction kvs arbitrary: p)
  case Nil
  show ?case by simp
next
  case (Cons kv kvs)
  obtain k' v' where kv: "kv = (k', v')" by (cases kv)
  show ?case
    by (simp add: Cons.IH kv getStyle_prims map_add_def split: option.split)
qed

lemma other_fold_setStyle:
  "shape (fold (\<lambda>(prop, v). setStyle n prop (Str v)) kvs p) = shape p"
  "observed (fold (\<lambda>(prop, v). setStyle n prop (Str v)) kvs p) = observed p"
  "usingKeyboard (fold (\<lambda>(prop, v). setStyle n prop (Str v)) kvs p) = usingKeyboard p"
  "getAttribute el a (fold (\<lambda>(prop, v). setStyle n prop (Str v)) kvs p) = getAttribute el a p"
  "hasClass el c (fold (\<lambda>(prop, v). setStyle n prop (Str v)) kvs p) = hasClass el c p"
  by (rule fold_preserve; simp add: shape_prims observed_prims usingKeyboard_prims
      getAttribute_prims hasClass_prims split: prod.split)+

lemma openNav_Inr:
  assumes "nav p = Some n" "toggle p = Some t"
  shows "openNav p =
    Inr (fold (\<lambda>(prop, v). setStyle n prop (Str v)) openNav_styles
           (setAttribute t ''aria-expanded'' ''true'' p))"
  using assms by (simp add: openNav_def)

lemma closeNav_Inr:
  assumes "nav p = Some n" "toggle p = Some t"
  shows "closeNav p =
    Inr (fold (\<lambda>(prop, v). setStyle n prop (Str v)) closeNav_styles
           (setAttribute t ''aria-expanded'' ''false'' p))"
  using assms by (simp add: closeNav_def)

lemma openNav_shape: "openNav p = Inr q \<Longrightarrow> shape q = shape p"
  by (auto simp: openNav_def other_fold_setStyle shape_prims split: option.splits)

lemma closeNav_shape: "closeNav p = Inr q \<Longrightarrow> shape q = shape p"
  by (auto simp: closeNav_def other_fold_setStyle shape_prims split: option.splits)

lemma dom_openNav_styles: "fst ` set openNav_styles = nav_inline_props"
  by (simp add: openNav_styles_def nav_inline_props_def)

lemma dom_closeNav_styles: "fst ` set closeNav_styles = nav_inline_props"
  by (simp add: closeNav_styles_def nav_inline_props_def)

lemma map_of_rev_openNav_styles: "map_of (rev openNav_styles) k = map_of openNav_styles k"
  by (simp add: openNav_styles_def)

lemma map_of_rev_closeNav_styles: "map_of (rev closeNav_styles) k = map_of closeNav_styles k"
  by (simp add: closeNav_styles_def)

lemma map_of_closeNav_styles:
  "map_of closeNav_styles k = (if k \<in> nav_inline_props then Some '''' else None)"
  by (simp add: closeNav_styles_def nav_inline_props_def)

lemma map_of_openNav_styles_None:
  "(map_of openNav_styles k = None) = (k \<notin> nav_inline_props)"
  by (simp add: map_of_eq_None_iff dom_openNav_styles)

lemma map_of_openNav_styles_nonempty: "map_of openNav_styles k \<noteq> Some ''''"
  by (simp add: openNav_styles_def)

lemma getStyle_openNav:
  assumes "nav p = Some n" "toggle p = Some t" "openNav p = Inr q"
  shows "getStyle el k q =
    (if el = n then (case map_of openNav_styles k of None \<Rightarrow> getStyle el k p | Some v \<Rightarrow> Str v)
     else getStyle el k p)"
proof -
  have "q = fold (\<lambda>(prop, v). setStyle n prop (Str v)) openNav_styles
              (setAttribute t ''aria-expanded'' ''true'' p)"
    using assms by (simp add: openNav_Inr)
  then show ?thesis
    by (simp add: getStyle_fold_setStyle map_of_rev_openNav_styles getStyle_prims
        cong: option.case_cong)
qed

lemma getStyle_closeNav:
  assumes "nav p = Some n" "toggle p = Some t" "closeNav p = Inr q"
  shows "getStyle el k q =
    (if el = n \<and> k \<in> nav_inline_props then Str '''' else getStyle el k p)"
proof -
  have "q = fold (\<lambda>(prop, v). setStyle n prop (Str v)) closeNav_styles
              (setAttribute t ''aria-expanded'' ''false'' p)"
    using assms by (simp add: closeNav_Inr)
  then show ?thesis
    by (simp add: getStyle_fold_setStyle map_of_rev_closeNav_styles
        map_of_closeNav_styles getStyle_prims)
qed

lemma getAttribute_openNav:
  assumes "nav p = Some n" "toggle p = Some t" "openNav p = Inr q"
  shows "getAttribute el a q =
    (if el = t \<and> a = ''aria-expanded'' then Some ''true'' else getAttribute el a p)"
  using assms by (auto simp: openNav_Inr other_fold_setStyle getAttribute_prims)

lemma getAttribute_closeNav:
  assumes "nav p = Some n" "toggle p = Some t" "closeNav p = Inr q"
  shows "getAttribute el a q =
    (if el = t \<and> a = ''aria-expanded'' then Some ''false'' else getAttribute el a p)"
  using assms by (auto simp: closeNav_Inr other_fold_setStyle getAttribute_prims)

lemma closeNav_closed:
  assumes "nav_installed p"
  shows "\<exists>q. closeNav p = Inr q \<and> shape q = shape p \<and> \<not> nav_open q \<and> \<not> aria_expanded q"
proof -
  from assms obtain n t where n: "nav p = Some n" and t: "toggle p = Some t"
    by (auto simp: nav_installed_def)
  obtain q where q: "closeNav p = Inr q"
    using n t by (simp add: closeNav_Inr)
  have sh: "shape q = shape p" using q by (rule closeNav_shape)
  have nq: "nav q = Some n" and tq: "toggle q = Some t"
    using n t shapeD[OF sh] by simp_all
  have "getStyle n ''display'' q \<noteq> Str ''block''"
    by (simp add: getStyle_closeNav[OF n t q] nav_inline_props_def)
  then have 1: "\<not> nav_open q"
    by (simp add: nav_open_def nq)
  have "getAttribute t ''aria-expanded'' q = Some ''false''"
    by (simp add: getAttribute_closeNav[OF n t q])
  then have 2: "\<not> aria_expanded q"
    by (simp add: aria_expanded_def tq)
  from q sh 1 2 show ?thesis by blast
qed

lemma openNav_opened:
  assumes "nav_installed p"
  shows "\<exists>q. openNav p = Inr q \<and> shape q = shape p \<and> nav_open q \<and> aria_expanded q"
proof -
  from assms obtain n t where n: "nav p = Some n" and t: "toggle p = Some t"
    by (auto simp: nav_installed_def)
  obtain q where q: "openNav p = Inr q"
    using n t by (simp add: openNav_Inr)
  have sh: "shape q = shape p" using q by (rule openNav_shape)
  have nq: "nav q = Some n" and tq: "toggle q = Some t"
    using n t shapeD[OF sh] by simp_all
  have "getStyle n ''display'' q = Str ''block''"
    by (simp add: getStyle_openNav[OF n t q] openNav_styles_def)
  then have 1: "nav_open q"
    by (simp add: nav_open_def nq)
  have "getAttribute t ''aria-expanded'' q = Some ''true''"
    by (simp add: getAttribute_openNav[OF n t q])
  then have 2: "aria_expanded q"
    by (simp add: aria_expanded_def tq)
  from q sh 1 2 show ?thesis by blast
qed

lemma openNav_invariant:
  assumes "I p"
    and S: "\<And>el k v q. I q \<Longrightarrow> k \<in> nav_inline_props \<Longrightarrow> I (setStyle el k v q)"
    and A: "\<And>el w q. I q \<Longrightarrow> I (setAttribute el ''aria-expanded'' w q)"
    and "openNav p = Inr q"
  shows "I q"
proof (cases "nav p")
  case None
  with assms(1,4) show ?thesis by (simp add: openNav_def)
next
  case (Some n)
  with assms(4) obtain t where t: "toggle p = Some t"
    by (cases "toggle p") (simp_all add: openNav_def)
  have q: "q = fold (\<lambda>(prop, v). setStyle n prop (Str v)) openNav_styles
                 (setAttribute t ''aria-expanded'' ''true'' p)"
    using assms(4) by (simp add: openNav_Inr[OF Some t])
  show ?thesis
    unfolding q
  proof (rule fold_invariant_set)
    show "I (setAttribute t ''aria-expanded'' ''true'' p)"
      using assms(1) by (rule A)
    fix x q' assume x: "x \<in> set openNav_styles" and i: "I q'"
    from x have "fst x \<in> nav_inline_props"
      using dom_openNav_styles by blast
    with i show "I ((case x of (prop, v) \<Rightarrow> setStyle n prop (Str v)) q')"
      by (cases x) (simp add: S)
  qed
qed

lemma closeNav_invariant:
  assumes "I p"
    and S: "\<And>el k v q. I q \<Longrightarrow> k \<in> nav_inline_props \<Longrightarrow> I (setStyle el k v q)"
    and A: "\<And>el w q. I q \<Longrightarrow> I (setAttribute el ''aria-expanded'' w q)"
    and "closeNav p = Inr q"
  shows "I q"
proof (cases "nav p")
  case None
  with assms(1,4) show ?thesis by (simp add: closeNav_def)
next
  case (Some n)
  with assms(4) obtain t where t: "toggle p = Some t"
    by (cases "toggle p") (simp_all add: closeNav_def)
  have q: "q = fold (\<lambda>(prop, v). setStyle n prop (Str v)) closeNav_styles
                 (setAttribute t ''aria-expanded'' ''false'' p)"
    using assms(4) by (simp add: closeNav_Inr[OF Some t])
  show ?thesis
    unfolding q
  proof (rule fold_invariant_set)
    show "I (setAttribute t ''aria-expanded'' ''false'' p)"
      using assms(1) by (rule A)
    fix x q' assume x: "x \<in> set closeNav_styles" and i: "I q'"
    from x have "fst x \<in> nav_inline_props"
      using dom_closeNav_styles by blast
    with i show "I ((case x of (prop, v) \<Rightarrow> setStyle n prop (Str v)) q')"
      by (cases x) (simp add: S)
  qed
qed

section \<open>Properties of the navigation's listeners\<close>

lemma nav_installed_shape: "shape q = shape p \<Longrightarrow> nav_installed q = nav_installed p"
  by (simp add: nav_installed_def shape_def)

lemma toggle_click_listener_cases:
  assumes "nav_installed p"
  shows "snd (toggle_click_listener p) \<and>
    (if aria_expanded p then closeNav p = Inr (fst (toggle_click_listener p))
     else openNav p = Inr (fst (toggle_click_listener p)))"
proof -
  from assms obtain t where t: "toggle p = Some t"
    by (auto simp: nav_installed_def)
  obtain q1 where q1: "closeNav p = Inr q1" using closeNav_closed[OF assms] by blast
  obtain q2 where q2: "openNav p = Inr q2" using openNav_opened[OF assms] by blast
  show ?thesis
    by (simp add: toggle_click_listener_def t aria_expanded_def q1 q2)
qed

lemma toggle_click_step:
  assumes inst: "nav_installed p" and agree: "aria_expanded p = nav_open p"
  shows "shape (fst (toggle_click_listener p)) = shape p \<and>
    nav_open (fst (toggle_click_listener p)) = (\<not> nav_open p) \<and>
    aria_expanded (fst (toggle_click_listener p)) = (\<not> nav_open p)"
proof (cases "aria_expanded p")
  case True
  with toggle_click_listener_cases[OF inst]
  have "closeNav p = Inr (fst (toggle_click_listener p))" by simp
  with closeNav_closed[OF inst] True agree show ?thesis by auto
next
  case False
  with toggle_click_listener_cases[OF inst]
  have "openNav p = Inr (fst (toggle_click_listener p))" by simp
  with openNav_opened[OF inst] False agree show ?thesis by auto
qed

lemma click_dispatch_toggle:
  assumes "nav_installed p" "in_toggle e"
  shows "click_dispatch e p = fst (toggle_click_listener p)"
proof -
  obtain q s where l: "toggle_click_listener p = (q, s)"
    by (cases "toggle_click_listener p")
  with toggle_click_listener_cases[OF assms(1)] have "s" by simp
  with assms l show ?thesis by (simp add: click_dispatch_def)
qed

lemma document_click_listener_open:
  assumes "nav_installed p" "nav_open p" "\<not> in_nav e" "\<not> in_toggle e"
  shows "closeNav p = Inr (document_click_listener e p)"
proof -
  from assms obtain n where n: "nav p = Some n"
    by (auto simp: nav_installed_def)
  obtain q where q: "closeNav p = Inr q" using closeNav_closed[OF assms(1)] by blast
  show ?thesis
    using assms(2-4) by (simp add: document_click_listener_def n q nav_open_def)
qed

lemma document_click_listener_closed:
  assumes "\<not> nav_open p"
  shows "document_click_listener e p = p"
  using assms by (simp add: document_click_listener_def nav_open_def split: option.splits)

lemma document_keydown_listener_open:
  assumes "nav_installed p" "nav_open p"
  shows "closeNav p = Inr (document_keydown_listener ''Escape'' p)"
proof -
  from assms obtain n where n: "nav p = Some n"
    by (auto simp: nav_installed_def)
  obtain q where q: "closeNav p = Inr q" using closeNav_closed[OF assms(1)] by blast
  show ?thesis
    using assms(2) by (simp add: document_keydown_listener_def n q nav_open_def)
qed

lemma document_keydown_listener_closed:
  assumes "\<not> nav_open p"
  shows "document_keydown_listener key p = p"
  using assms by (simp add: document_keydown_listener_def nav_open_def split: option.splits)

lemma window_keydown_listener_other: "key \<noteq> ''Tab'' \<Longrightarrow> window_keydown_listener key p = p"
  by (simp add: window_keydown_listener_def)

lemma toggle_click_listener_invariant:
  assumes "I p"
    and S: "\<And>el k v q. I q \<Longrightarrow> k \<in> nav_inline_props \<Longrightarrow> I (setStyle el k v q)"
    and A: "\<And>el w q. I q \<Longrightarrow> I (setAttribute el ''aria-expanded'' w q)"
  shows "I (fst (toggle_click_listener p))"
  using assms(1) openNav_invariant[of I p, OF assms(1) S A] closeNav_invariant[of I p, OF assms(1) S A]
  by (auto simp: toggle_click_listener_def Let_def split: option.splits sum.splits)

lemma document_click_listener_invariant:
  assumes "I p"
    and S: "\<And>el k v q. I q \<Longrightarrow> k \<in> nav_inline_props \<Longrightarrow> I (setStyle el k v q)"
    and A: "\<And>el w q. I q \<Longrightarrow> I (setAttribute el ''aria-expanded'' w q)"
  shows "I (document_click_listener e p)"
  using assms(1) closeNav_invariant[of I p, OF assms(1) S A]
  by (auto simp: document_click_listener_def split: option.splits sum.splits)

lemma document_keydown_listener_invariant:
  assumes "I p"
    and S: "\<And>el k v q. I q \<Longrightarrow> k \<in> nav_inline_props \<Longrightarrow> I (setStyle el k v q)"
    and A: "\<And>el w q. I q \<Longrightarrow> I (setAttribute el ''aria-expanded'' w q)"
  shows "I (document_keydown_listener key p)"
  using assms(1) closeNav_invariant[of I p, OF assms(1) S A]
  by (auto simp: document_keydown_listener_def split: option.splits sum.splits)

lemma click_dispatch_invariant:
  assumes "I p"
    and S: "\<And>el k v q. I q \<Longrightarrow> k \<in> nav_inline_props \<Longrightarrow> I (setStyle el k v q)"
    and A: "\<And>el w q. I q \<Longrightarrow> I (setAttribute el ''aria-expanded'' w q)"
  shows "I (click_dispatch e p)"
proof -
  obtain q s where l: "toggle_click_listener p = (q, s)"
    by (cases "toggle_click_listener p")
  have q: "I q"
    using toggle_click_listener_invariant[of I p, OF assms] by (simp add: l)
  have "I (document_click_listener e q)"
    using q S A by (rule document_click_listener_invariant)
  moreover have "I (document_click_listener e p)"
    using assms by (rule document_click_listener_invariant)
  ultimately show ?thesis
    using assms(1) q by (simp add: click_dispatch_def l)
qed

section \<open>Properties of every event\<close>

lemma io_callback_invariant:
  assumes "I p"
    and E: "\<And>en q. I q \<Longrightarrow> en \<in> set entries \<Longrightarrow> isIntersecting en \<Longrightarrow>
              I (unobserve (target en) (classList_add (target en) ''visible'' q))"
  shows "I (io_callback entries p)"
  unfolding io_callback_def
  by (rule fold_invariant_set[where I=I and p=p, OF _ assms(1)]) (simp add: io_entry_def E)

lemma hero_pointermove_invariant:
  assumes "I p"
    and T: "\<And>el v q. I q \<Longrightarrow> I (setStyle el ''transform'' v q)"
  shows "I (hero_pointermove e r p)"
  unfolding hero_pointermove_def Let_def
  by (rule fold_invariant[where I=I and p=p, OF _ assms(1)]) (simp add: leaf_move_def Let_def T split: prod.split)

lemma hero_pointerleave_invariant:
  assumes "I p"
    and T: "\<And>el v q. I q \<Longrightarrow> I (setStyle el ''transform'' v q)"
  shows "I (hero_pointerleave p)"
  unfolding hero_pointerleave_def
  by (rule fold_invariant[where I=I and p=p, OF _ assms(1)]) (simp add: T)

text \<open>
  Every event handler is a run of primitive writes of a few kinds. What holds before an
  event and survives each kind of write the event can make holds after the event.
\<close>

lemma handle_invariant:
  assumes "I p"
    and S: "\<And>el k v q. I q \<Longrightarrow> k \<in> nav_inline_props \<Longrightarrow> I (setStyle el k v q)"
    and A: "\<And>el w q. I q \<Longrightarrow> I (setAttribute el ''aria-expanded'' w q)"
    and P: "\<And>el v q. I q \<Longrightarrow> I (setStyle el ''animationPlayState'' v q)"
    and T: "\<And>el v q. I q \<Longrightarrow> \<not> prefersReducedMotion p \<Longrightarrow> I (setStyle el ''transform'' v q)"
    and E: "\<And>en q. I q \<Longrightarrow> en \<in> set (entries_of e) \<Longrightarrow> isIntersecting en \<Longrightarrow>
              I (unobserve (target en) (classList_add (target en) ''visible'' q))"
    and K: "\<And>q. I q \<Longrightarrow> e = KeyDown ''Tab'' \<Longrightarrow>
              I (classList_add (documentElement q) ''using-keyboard'' (q\<lparr>usingKeyboard := True\<rparr>))"
    and M: "\<And>q. I q \<Longrightarrow> e = MouseDown \<Longrightarrow> usingKeyboard q \<Longrightarrow>
              I (classList_remove (documentElement q) ''using-keyboard'' (q\<lparr>usingKeyboard := False\<rparr>))"
  shows "I (handle e p)"
proof (cases e)
  case (Click c)
  show ?thesis
    unfolding Click handle.simps using assms(1) S A by (rule click_dispatch_invariant)
next
  case (KeyDown key)
  have "I (document_keydown_listener key p)"
    using assms(1) S A by (rule document_keydown_listener_invariant)
  with assms(1) have "I (if nav_installed p then document_keydown_listener key p else p)"
    by simp
  then show ?thesis
    using K unfolding KeyDown handle.simps window_keydown_listener_def
    by (simp add: KeyDown)
next
  case MouseDown
  show ?thesis
    using assms(1) M unfolding MouseDown handle.simps window_mousedown_listener_def
    by (simp add: MouseDown)
next
  case (Intersect entries)
  show ?thesis
    using assms(1) io_callback_invariant[of I p entries, OF assms(1)] E
    unfolding Intersect handle.simps by simp
next
  case (Marquee k ev)
  show ?thesis
    using assms(1) P unfolding Marquee handle.simps marquee_listener_def
    by (simp split: option.split marquee_event.split)
next
  case (HeroPointerMove ev r)
  show ?thesis
  proof (cases "hero_installed p")
    case True
    then have "\<not> prefersReducedMotion p" by (simp add: hero_installed_def)
    with T have "\<And>el v q. I q \<Longrightarrow> I (setStyle el ''transform'' v q)" by simp
    with assms(1) have "I (hero_pointermove ev r p)" by (rule hero_pointermove_invariant)
    with True show ?thesis by (simp add: HeroPointerMove)
  next
    case False
    with assms(1) show ?thesis by (simp add: HeroPointerMove)
  qed
next
  case HeroPointerLeave
  show ?thesis
  proof (cases "hero_installed p")
    case True
    then have "\<not> prefersReducedMotion p" by (simp add: hero_installed_def)
    with T have "\<And>el v q. I q \<Longrightarrow> I (setStyle el ''transform'' v q)" by simp
    with assms(1) have "I (hero_pointerleave p)" by (rule hero_pointerleave_invariant)
    with True show ?thesis by (simp add: HeroPointerLeave)
  next
    case False
    with assms(1) show ?thesis by (simp add: HeroPointerLeave)
  qed
next
  case (CardPointerMove k ev r)
  show ?thesis
    using assms(1) T unfolding CardPointerMove handle.simps card_pointermove_def
    by (simp add: Let_def)
next
  case (CardPointerLeave k)
  show ?thesis
    using assms(1) T unfolding CardPointerLeave handle.simps card_pointerleave_def
    by simp
qed

lemma handle_shape: "shape (handle e p) = shape p"
  by (rule handle_invariant[where I="\<lambda>q. shape q = shape p"]) (simp_all add: shape_prims)

lemma run_Cons: "run (e # es) p = run es (handle e p)"
  by (simp add: run_def)

lemma run_Nil: "run [] p = p"
  by (simp add: run_def)

lemma run_append: "run (es @ es') p = run es' (run es p)"
  by (simp add: run_def)

lemma run_invariant:
  assumes "I p" and "\<And>e q. e \<in> set es \<Longrightarrow> I q \<Longrightarrow> I (handle e q)"
  shows "I (run es p)"
  unfolding run_def using assms(2,1) by (rule fold_invariant_set)

lemma run_shape: "shape (run es p) = shape p"
  by (rule run_invariant[where I="\<lambda>q. shape q = shape p"]) (simp_all add: handle_shape)

section \<open>Properties of startup\<close>

lemma init_reveal_eager:
  assumes "prefersReducedMotion p \<or> \<not> hasIntersectionObserver p"
  shows "init_reveal p =
    fold (\<lambda>el. classList_add el ''visible'') (reveals p) (p\<lparr>io := None, observed := {}\<rparr>)"
  using assms by (auto simp: init_reveal_def)

lemma init_reveal_observing:
  assumes "\<not> prefersReducedMotion p" "hasIntersectionObserver p"
  shows "init_reveal p = fold observe (reveals p) (p\<lparr>io := Some (round_double (12 / 100)), observed := {}\<rparr>)"
  using assms by (simp add: init_reveal_def)

lemma hasClass_fold_add:
  "hasClass el c (fold (\<lambda>x. classList_add x c') xs p) =
     (el \<in> set xs \<and> c = c' \<or> hasClass el c p)"
  by (induction xs arbitrary: p) (auto simp: hasClass_prims)

lemma observed_fold_observe: "observed (fold observe xs p) = set xs \<union> observed p"
  by (induction xs arbitrary: p) (auto simp: observed_prims)

lemma init_reveal_frame:
  "prefersReducedMotion (init_reveal p) = prefersReducedMotion p"
  "marquees (init_reveal p) = marquees p"
  "reveals (init_reveal p) = reveals p"
  "getStyle el k (init_reveal p) = getStyle el k p"
proof -
  have a: "obs (init_reveal p) = obs p"
    if "\<And>el q. obs (classList_add el ''visible'' q) = obs q"
      "\<And>el q. obs (observe el q) = obs q"
      "\<And>b S. obs (p\<lparr>io := b, observed := S\<rparr>) = obs p" for obs :: "page \<Rightarrow> 'a"
    using that by (simp add: init_reveal_def fold_preserve[where obs=obs])
  show "prefersReducedMotion (init_reveal p) = prefersReducedMotion p"
    by (rule a) (simp_all add: classList_add_def observe_def)
  show "marquees (init_reveal p) = marquees p"
    by (rule a) (simp_all add: classList_add_def observe_def)
  show "reveals (init_reveal p) = reveals p"
    by (rule a) (simp_all add: classList_add_def observe_def)
  show "getStyle el k (init_reveal p) = getStyle el k p"
    by (rule a) (simp_all add: getStyle_def classList_add_def observe_def)
qed

lemma init_marquee_obs:
  assumes "\<And>el k v q. obs (setStyle el k v q) = obs q"
  shows "obs (init_marquee m p) = obs p"
  by (simp add: init_marquee_def assms split: option.split)

lemma init_marquees_obs:
  assumes "\<And>el k v q. obs (setStyle el k v q) = obs q"
  shows "obs (init_marquees p) = obs p"
  unfolding init_marquees_def
  by (rule fold_preserve) (simp add: init_marquee_obs[where obs=obs] assms)

lemma init_marquees_frame:
  "prefersReducedMotion (init_marquees p) = prefersReducedMotion p"
  "reveals (init_marquees p) = reveals p"
  "marquees (init_marquees p) = marquees p"
  "observed (init_marquees p) = observed p"
  "io (init_marquees p) = io p"
  "hasClass el c (init_marquees p) = hasClass el c p"
  by (rule init_marquees_obs; simp add: setStyle_def hasClass_def)+

lemma startup_eq:
  "startup d =
     (init_marquees (init_reveal
        (d\<lparr>prefersReducedMotion := (case matchMedia d of None \<Rightarrow> False | Some m \<Rightarrow> m)\<rparr>)))
     \<lparr>usingKeyboard := False\<rparr>"
  by (simp add: startup_def Let_def)

lemma prefersReducedMotion_startup:
  "prefersReducedMotion (startup d) = (matchMedia d = Some True)"
  by (auto simp: startup_eq init_marquees_frame init_reveal_frame split: option.split)

lemma marquees_startup: "marquees (startup d) = marquees d"
  by (simp add: startup_eq init_marquees_frame init_reveal_frame)

lemma usingKeyboard_startup: "\<not> usingKeyboard (startup d)"
  by (simp add: startup_def Let_def)

lemma getStyle_startup_other:
  assumes "k \<noteq> ''animation''" "k \<noteq> ''transform''"
  shows "getStyle el k (startup d) = getStyle el k d"
proof -
  have "getStyle el k (init_marquees p) = getStyle el k p" for p
    unfolding init_marquees_def
    by (rule fold_preserve)
      (simp add: init_marquee_def getStyle_prims assms split: option.split)
  then show ?thesis
    by (simp add: startup_eq getStyle_prims init_reveal_frame)
qed

lemma startup_eager:
  assumes "matchMedia d = Some True \<or> \<not> hasIntersectionObserver d"
  shows "hasClass el ''visible'' (startup d) = (el \<in> set (reveals d) \<or> hasClass el ''visible'' d)"
    and "observed (startup d) = {}" and "io (startup d) = None"
proof -
  let ?p = "d\<lparr>prefersReducedMotion := (case matchMedia d of None \<Rightarrow> False | Some m \<Rightarrow> m)\<rparr>"
  have e: "prefersReducedMotion ?p \<or> \<not> hasIntersectionObserver ?p"
    using assms by auto
  have r: "init_reveal ?p =
      fold (\<lambda>el. classList_add el ''visible'') (reveals d) (?p\<lparr>io := None, observed := {}\<rparr>)"
    using init_reveal_eager[OF e] by simp
  show "hasClass el ''visible'' (startup d) = (el \<in> set (reveals d) \<or> hasClass el ''visible'' d)"
  proof -
    have "hasClass el ''visible'' (?p\<lparr>io := None, observed := {}\<rparr>) = hasClass el ''visible'' d"
      by (simp add: hasClass_def)
    then show ?thesis
      by (simp add: startup_eq init_marquees_frame hasClass_prims r hasClass_fold_add)
  qed
  have "observed (init_reveal ?p) = {}" and "io (init_reveal ?p) = None"
    unfolding r
    by (rule fold_invariant[where I="\<lambda>q. observed q = {}"] fold_invariant[where I="\<lambda>q. io q = None"];
        simp add: classList_add_def)+
  then show "observed (startup d) = {}" and "io (startup d) = None"
    by (simp_all add: startup_eq init_marquees_frame)
qed

lemma startup_observing:
  assumes "matchMedia d \<noteq> Some True" "hasIntersectionObserver d"
  shows "io (startup d) = Some (round_double (12 / 100))" and "observed (startup d) = set (reveals d)"
    and "hasClass el c (startup d) = hasClass el c d"
proof -
  let ?p = "d\<lparr>prefersReducedMotion := (case matchMedia d of None \<Rightarrow> False | Some m \<Rightarrow> m)\<rparr>"
  have e: "\<not> prefersReducedMotion ?p" "hasIntersectionObserver ?p"
    using assms by (auto split: option.split)
  have r: "init_reveal ?p = fold observe (reveals d) (?p\<lparr>io := Some (round_double (12 / 100)), observed := {}\<rparr>)"
    using init_reveal_observing[OF e] by simp
  have "io (init_reveal ?p) = Some (round_double (12 / 100))"
    unfolding r by (rule fold_invariant[where I="\<lambda>q. io q = Some (round_double (12 / 100))"]) (simp_all add: observe_def)
  then show "io (startup d) = Some (round_double (12 / 100))"
    by (simp add: startup_eq init_marquees_frame)
  show "observed (startup d) = set (reveals d)"
    by (simp add: startup_eq init_marquees_frame r observed_fold_observe)
  have "hasClass el c (init_reveal ?p) = hasClass el c (?p\<lparr>io := Some (round_double (12 / 100)), observed := {}\<rparr>)"
    unfolding r by (rule fold_preserve) (simp add: hasClass_prims)
  also have "\<dots> = hasClass el c d"
    by (simp add: hasClass_def)
  finally show "hasClass el c (startup d) = hasClass el c d"
    by (simp add: startup_eq init_marquees_frame hasClass_prims)
qed

section \<open>The sample page\<close>

lemma demo_open_page_facts:
  "nav_installed demo_open_page" "nav_open demo_open_page"
  by (simp_all add: demo_open_page_def demo_page_def nav_installed_def nav_open_def getStyle_def)

lemma demo_page_facts:
  "nav_installed demo_page" "\<not> nav_open demo_page" "\<not> aria_expanded demo_page"
  by (simp_all add: demo_page_def nav_installed_def nav_open_def getStyle_def blank_def
      aria_expanded_def getAttribute_def)

section \<open>The navigation toggle\<close>

lemma toggle_clicks_parity:
  assumes "nav_installed p" and "\<not> nav_open p" and "\<not> aria_expanded p"
    and "\<forall>e \<in> set es. in_toggle e"
  shows "nav_open (run (map Click es) p) = odd (length es) \<and>
         aria_expanded (run (map Click es) p) = nav_open (run (map Click es) p)"
proof -
  have "nav_installed (run (map Click es) p) \<and>
        nav_open (run (map Click es) p) = odd (length es) \<and>
        aria_expanded (run (map Click es) p) = nav_open (run (map Click es) p)"
    using assms(4)
  proof (induction es rule: rev_induct)
    case Nil
    show ?case using assms(1-3) by (simp add: run_Nil)
  next
    case (snoc e es)
    let ?q = "run (map Click es) p"
    from snoc have ih: "nav_installed ?q" "nav_open ?q = odd (length es)"
      "aria_expanded ?q = nav_open ?q" and e: "in_toggle e"
      by simp_all
    have r: "run (map Click es @ [Click e]) p = fst (toggle_click_listener ?q)"
      using click_dispatch_toggle[OF ih(1) e] by (simp add: run_append run_Cons run_Nil)
    have st: "shape (fst (toggle_click_listener ?q)) = shape ?q"
      "nav_open (fst (toggle_click_listener ?q)) = (\<not> nav_open ?q)"
      "aria_expanded (fst (toggle_click_listener ?q)) = (\<not> nav_open ?q)"
      using toggle_click_step[OF ih(1) ih(3)] by simp_all
    show ?case
      using ih nav_installed_shape[OF st(1)] by (simp add: r st(2,3))
  qed
  then show ?thesis by simp
qed

text \<open>
  Claim C1. The listeners being installed and the nav closed (its inline display is not
  \<open>block\<close> and \<open>aria-expanded\<close> of the toggle is not \<open>true\<close>), after each click of
  any sequence of clicks on the toggle, that is after the first \<open>k\<close> clicks for every \<open>k\<close>,
  the nav is open exactly when \<open>k\<close> is odd, and \<open>aria-expanded\<close> is \<open>true\<close> exactly when
  the nav is open: the state alternates closed, open, closed, and so on, and the exposed
  signal follows it.
\<close>

theorem toggle_clicks_alternate:
  assumes "nav_installed p" and "\<not> nav_open p" and "\<not> aria_expanded p"
    and "\<forall>e \<in> set es. in_toggle e" and "k \<le> length es"
  shows "nav_open (run (map Click (take k es)) p) = odd k \<and>
         aria_expanded (run (map Click (take k es)) p) =
           nav_open (run (map Click (take k es)) p)"
proof -
  have "\<forall>e \<in> set (take k es). in_toggle e"
    using assms(4) by (meson in_set_takeD)
  from toggle_clicks_parity[OF assms(1-3) this] assms(5) show ?thesis
    by (simp add: min_def)
qed

theorem toggle_clicks_alternate_witness:
  "nav_installed demo_page \<and> \<not> nav_open demo_page \<and> \<not> aria_expanded demo_page \<and>
   \<not> nav_open (run (map Click [on_toggle, on_toggle]) demo_page) \<and>
   \<not> aria_expanded (run (map Click [on_toggle, on_toggle]) demo_page) \<and>
   nav_open (run (map Click [on_toggle, on_toggle, on_toggle]) demo_page) \<and>
   aria_expanded (run (map Click [on_toggle, on_toggle, on_toggle]) demo_page)"
proof -
  have t: "\<forall>e \<in> set [on_toggle, on_toggle, on_toggle]. in_toggle e"
    by (simp add: on_toggle_def)
  have 2: "take 2 [on_toggle, on_toggle, on_toggle] = [on_toggle, on_toggle]"
    and 3: "take 3 [on_toggle, on_toggle, on_toggle] = [on_toggle, on_toggle, on_toggle]"
    by simp_all
  have "(2::nat) \<le> length [on_toggle, on_toggle, on_toggle]"
    by simp
  from toggle_clicks_alternate[OF demo_page_facts t this]
  have a: "\<not> nav_open (run (map Click [on_toggle, on_toggle]) demo_page) \<and>
      \<not> aria_expanded (run (map Click [on_toggle, on_toggle]) demo_page)"
    unfolding 2 by simp
  have "(3::nat) \<le> length [on_toggle, on_toggle, on_toggle]"
    by simp
  from toggle_clicks_alternate[OF demo_page_facts t this]
  have b: "nav_open (run (map Click [on_toggle, on_toggle, on_toggle]) demo_page) \<and>
      aria_expanded (run (map Click [on_toggle, on_toggle, on_toggle]) demo_page)"
    unfolding 3 by simp
  from a b demo_page_facts show ?thesis by blast
qed

text \<open>
  Claim C2. With the listeners installed: while the nav is open, a click whose target is
  outside both the nav and the toggle closes the nav, and so does an Escape key; while
  the nav is closed, a click outside the toggle and an Escape key leave the page as it
  is; and a click on the toggle reaches \<open>stopPropagation\<close>, so its dispatch is the
  toggle's listener alone and never runs the document's outside-click listener: a click
  on the toggle of a collapsed menu leaves the nav open.
\<close>

theorem nav_close_triggers:
  assumes "nav_installed p"
  shows "(nav_open p \<and> \<not> in_nav e \<and> \<not> in_toggle e \<longrightarrow>
            \<not> nav_open (handle (Click e) p) \<and> \<not> aria_expanded (handle (Click e) p)) \<and>
         (nav_open p \<longrightarrow>
            \<not> nav_open (handle (KeyDown ''Escape'') p) \<and>
            \<not> aria_expanded (handle (KeyDown ''Escape'') p)) \<and>
         (\<not> nav_open p \<and> \<not> in_toggle e \<longrightarrow> handle (Click e) p = p) \<and>
         (\<not> nav_open p \<longrightarrow> handle (KeyDown ''Escape'') p = p) \<and>
         (in_toggle e \<longrightarrow>
            snd (toggle_click_listener p) \<and>
            handle (Click e) p = fst (toggle_click_listener p) \<and>
            (\<not> aria_expanded p \<longrightarrow> nav_open (handle (Click e) p)))"
proof (intro conjI impI)
  assume o: "nav_open p \<and> \<not> in_nav e \<and> \<not> in_toggle e"
  then have c: "closeNav p = Inr (document_click_listener e p)"
    using document_click_listener_open[OF assms] by simp
  have h: "handle (Click e) p = document_click_listener e p"
    using assms o by (simp add: click_dispatch_def)
  from closeNav_closed[OF assms] c
  show "\<not> nav_open (handle (Click e) p)" and "\<not> aria_expanded (handle (Click e) p)"
    unfolding h by auto
next
  assume o: "nav_open p"
  have c: "closeNav p = Inr (document_keydown_listener ''Escape'' p)"
    using document_keydown_listener_open[OF assms o] .
  have h: "handle (KeyDown ''Escape'') p = document_keydown_listener ''Escape'' p"
    using assms by (simp add: window_keydown_listener_other)
  from closeNav_closed[OF assms] c
  show "\<not> nav_open (handle (KeyDown ''Escape'') p)"
    and "\<not> aria_expanded (handle (KeyDown ''Escape'') p)"
    unfolding h by auto
next
  assume "\<not> nav_open p \<and> \<not> in_toggle e"
  then show "handle (Click e) p = p"
    by (simp add: click_dispatch_def document_click_listener_closed)
next
  assume "\<not> nav_open p"
  then show "handle (KeyDown ''Escape'') p = p"
    by (simp add: window_keydown_listener_other document_keydown_listener_closed)
next
  assume t: "in_toggle e"
  obtain q s where l: "toggle_click_listener p = (q, s)"
    by (cases "toggle_click_listener p")
  with toggle_click_listener_cases[OF assms] have s: "s" by simp
  show "snd (toggle_click_listener p)" by (simp add: l s)
  show h: "handle (Click e) p = fst (toggle_click_listener p)"
    using assms t by (simp add: click_dispatch_def l s)
  assume "\<not> aria_expanded p"
  with toggle_click_listener_cases[OF assms] have "openNav p = Inr q"
    by (simp add: l)
  with openNav_opened[OF assms] have "nav_open q"
    by auto
  then show "nav_open (handle (Click e) p)"
    unfolding h by (simp add: l)
qed

theorem nav_close_triggers_witness:
  "nav_installed demo_open_page \<and> nav_open demo_open_page \<and>
   \<not> nav_open (handle (Click outside) demo_open_page) \<and>
   \<not> aria_expanded (handle (Click outside) demo_open_page) \<and>
   \<not> nav_open (handle (KeyDown ''Escape'') demo_open_page) \<and>
   nav_installed demo_page \<and> \<not> nav_open demo_page \<and>
   handle (Click outside) demo_page = demo_page \<and>
   handle (KeyDown ''Escape'') demo_page = demo_page \<and>
   nav_open (handle (Click on_toggle) demo_page)"
proof -
  have o: "\<not> in_nav outside \<and> \<not> in_toggle outside" and t: "in_toggle on_toggle"
    by (simp_all add: outside_def on_toggle_def)
  have 1: "\<not> nav_open (handle (Click outside) demo_open_page) \<and>
      \<not> aria_expanded (handle (Click outside) demo_open_page) \<and>
      \<not> nav_open (handle (KeyDown ''Escape'') demo_open_page)"
    using nav_close_triggers[OF demo_open_page_facts(1), of outside] demo_open_page_facts(2) o
    by blast
  have 2: "handle (Click outside) demo_page = demo_page \<and>
      handle (KeyDown ''Escape'') demo_page = demo_page"
    using nav_close_triggers[OF demo_page_facts(1), of outside] demo_page_facts(2) o
    by blast
  have 3: "nav_open (handle (Click on_toggle) demo_page)"
    using nav_close_triggers[OF demo_page_facts(1), of on_toggle] demo_page_facts(3) t
    by blast
  from 1 2 3 demo_open_page_facts demo_page_facts show ?thesis
    by blast
qed

text \<open>
  Claim C10. With a nav and a toggle, \<open>openNav\<close> followed by \<open>closeNav\<close> both return.
  \<open>openNav\<close> gives a non-empty value to each of the nine inline style properties
  display, flexDirection, position, right, top, background, padding, borderRadius and
  boxShadow of the nav and leaves every other property alone; \<open>closeNav\<close> sets exactly
  those nine to the empty string and leaves every other property alone. Hence, for a nav
  whose inline style is empty, the two calls restore every inline style property.
\<close>

theorem closeNav_openNav_roundtrip:
  assumes "nav p = Some n" and "toggle p = Some t"
  shows "\<exists>p1 p2. openNav p = Inr p1 \<and> closeNav p1 = Inr p2 \<and>
    (\<forall>k. if k \<in> nav_inline_props
         then getStyle n k p1 \<noteq> Str '''' \<and> getStyle n k p2 = Str ''''
         else getStyle n k p1 = getStyle n k p \<and> getStyle n k p2 = getStyle n k p1) \<and>
    ((\<forall>k. getStyle n k p = Str '''') \<longrightarrow> (\<forall>k. getStyle n k p2 = getStyle n k p))"
proof -
  obtain p1 where p1: "openNav p = Inr p1"
    using assms by (simp add: openNav_Inr)
  have sh1: "shape p1 = shape p"
    using p1 by (rule openNav_shape)
  have n1: "nav p1 = Some n" and t1: "toggle p1 = Some t"
    using assms shapeD[OF sh1] by simp_all
  obtain p2 where p2: "closeNav p1 = Inr p2"
    using n1 t1 by (simp add: closeNav_Inr)
  have s1: "getStyle n k p1 =
      (case map_of openNav_styles k of None \<Rightarrow> getStyle n k p | Some v \<Rightarrow> Str v)" for k
    using getStyle_openNav[OF assms p1, of n k] by simp
  have s2: "getStyle n k p2 = (if k \<in> nav_inline_props then Str '''' else getStyle n k p1)" for k
    using getStyle_closeNav[OF n1 t1 p2, of n k] by simp
  have a: "getStyle n k p1 \<noteq> Str ''''" if "k \<in> nav_inline_props" for k
  proof -
    from that obtain v where v: "map_of openNav_styles k = Some v"
      using map_of_openNav_styles_None[of k] by auto
    with map_of_openNav_styles_nonempty[of k] have "v \<noteq> ''''" by simp
    with v show ?thesis by (simp add: s1)
  qed
  have b: "getStyle n k p1 = getStyle n k p" if "k \<notin> nav_inline_props" for k
    using that map_of_openNav_styles_None[of k] by (simp add: s1)
  have c: "getStyle n k p2 = getStyle n k p" if "\<forall>k. getStyle n k p = Str ''''" for k
    using that b[of k] by (simp add: s2)
  have d: "if k \<in> nav_inline_props
         then getStyle n k p1 \<noteq> Str '''' \<and> getStyle n k p2 = Str ''''
         else getStyle n k p1 = getStyle n k p \<and> getStyle n k p2 = getStyle n k p1" for k
    using a[of k] b[of k] by (simp add: s2)
  show ?thesis
  proof (intro exI conjI allI impI)
    show "openNav p = Inr p1" by (fact p1)
    show "closeNav p1 = Inr p2" by (fact p2)
    show "if k \<in> nav_inline_props
         then getStyle n k p1 \<noteq> Str [] \<and> getStyle n k p2 = Str []
         else getStyle n k p1 = getStyle n k p \<and> getStyle n k p2 = getStyle n k p1" for k
      by (rule d)
    show "getStyle n k p2 = getStyle n k p" if "\<forall>k. getStyle n k p = Str []" for k
      using that by (rule c)
  qed
qed

theorem closeNav_openNav_roundtrip_witness:
  "nav demo_page = Some 2 \<and> toggle demo_page = Some 1 \<and>
   (\<exists>p1 p2. openNav demo_page = Inr p1 \<and> closeNav p1 = Inr p2 \<and>
      getStyle 2 ''display'' p1 = Str ''block'' \<and>
      (\<forall>k. getStyle 2 k p2 = Str ''''))"
proof -
  have n: "nav demo_page = Some 2" and t: "toggle demo_page = Some 1"
    by (simp_all add: demo_page_def)
  have e: "getStyle 2 k demo_page = Str ''''" for k
    by (simp add: demo_page_def getStyle_def blank_def)
  obtain p1 p2 where o: "openNav demo_page = Inr p1" and c: "closeNav p1 = Inr p2"
    and r: "(\<forall>k. getStyle 2 k demo_page = Str '''') \<longrightarrow> (\<forall>k. getStyle 2 k p2 = getStyle 2 k demo_page)"
    using closeNav_openNav_roundtrip[OF n t] by blast
  have d: "getStyle 2 ''display'' p1 = Str ''block''"
    using getStyle_openNav[OF n t o, of 2 "''display''"] by (simp add: openNav_styles_def)
  from r e have "\<forall>k. getStyle 2 k p2 = Str ''''" by simp
  with n t o c d show ?thesis by (intro conjI exI[of _ p1] exI[of _ p2]) simp_all
qed

section \<open>The scroll reveal\<close>

lemma handle_visible_mono:
  assumes "hasClass el ''visible'' p"
  shows "hasClass el ''visible'' (handle e p)"
  by (rule handle_invariant[where I="\<lambda>q. hasClass el ''visible'' q"])
    (simp_all add: assms hasClass_prims)

lemma handle_observed_subset: "observed (handle e p) \<subseteq> observed p"
  by (rule handle_invariant[where I="\<lambda>q. observed q \<subseteq> observed p"])
    (auto simp: observed_prims)

lemma run_visible_mono:
  assumes "hasClass el ''visible'' p"
  shows "hasClass el ''visible'' (run es p)"
  using assms by (rule run_invariant) (rule handle_visible_mono)

lemma run_observed_subset: "observed (run es p) \<subseteq> observed p"
  by (rule run_invariant[where I="\<lambda>q. observed q \<subseteq> observed p"])
    (use handle_observed_subset in blast)+

lemma hasClass_fold_io_entry:
  "hasClass r ''visible'' (fold io_entry b p) =
     (hasClass r ''visible'' p \<or> (\<exists>en \<in> set b. target en = r \<and> isIntersecting en))"
  by (induction b arbitrary: p) (auto simp: io_entry_def hasClass_prims)

lemma observed_fold_io_entry:
  "(r \<in> observed (fold io_entry b p)) =
     (r \<in> observed p \<and> \<not> (\<exists>en \<in> set b. target en = r \<and> isIntersecting en))"
  by (induction b arbitrary: p) (auto simp: io_entry_def observed_prims)

lemma handle_reveal:
  "hasClass r ''visible'' (handle e p) =
     (hasClass r ''visible'' p \<or> io p \<noteq> None \<and> intersecting_for r e)"
  "(r \<in> observed (handle e p)) = (r \<in> observed p \<and> \<not> (io p \<noteq> None \<and> intersecting_for r e))"
proof -
  have "hasClass r ''visible'' (handle e p) =
     (hasClass r ''visible'' p \<or> io p \<noteq> None \<and> intersecting_for r e) \<and>
     (r \<in> observed (handle e p)) = (r \<in> observed p \<and> \<not> (io p \<noteq> None \<and> intersecting_for r e))"
  proof (cases "\<exists>b. e = Intersect b")
    case True
    then obtain b where e: "e = Intersect b" by blast
    show ?thesis
      by (auto simp: e io_callback_def hasClass_fold_io_entry observed_fold_io_entry
          intersecting_for_def)
  next
    case False
    then have n: "entries_of e = []"
      by (cases e) simp_all
    have "hasClass r ''visible'' (handle e p) = hasClass r ''visible'' p \<and>
        observed (handle e p) = observed p"
      by (rule handle_invariant[where I="\<lambda>q. hasClass r ''visible'' q = hasClass r ''visible'' p \<and>
            observed q = observed p"])
        (simp_all add: n hasClass_prims observed_prims)
    then show ?thesis
      by (simp add: intersecting_for_def n)
  qed
  then show "hasClass r ''visible'' (handle e p) =
     (hasClass r ''visible'' p \<or> io p \<noteq> None \<and> intersecting_for r e)"
    and "(r \<in> observed (handle e p)) = (r \<in> observed p \<and> \<not> (io p \<noteq> None \<and> intersecting_for r e))"
    by simp_all
qed

lemma run_before_reveal:
  assumes "\<forall>e \<in> set es. \<not> intersecting_for r e"
  shows "hasClass r ''visible'' (run es p) = hasClass r ''visible'' p \<and>
         (r \<in> observed (run es p)) = (r \<in> observed p)"
  by (rule run_invariant[where I="\<lambda>q. hasClass r ''visible'' q = hasClass r ''visible'' p \<and>
        (r \<in> observed q) = (r \<in> observed p)"])
    (use assms in \<open>simp_all add: handle_reveal\<close>)

text \<open>
  The threshold is the double that the literal \<open>0.12\<close> denotes,
  \<open>0.11999999999999999556\<close>; the ratio of an entry is a double that the browser reports,
  and the comparison is between the two. A ratio of at least twelve hundredths is at or
  above the threshold.
\<close>

lemma js_le_threshold:
  "js_le (round_double (12 / 100)) (Fin q) = (1080863910568919 / 9007199254740992 \<le> q)"
  by (simp only: round_double_literal_012 js_le.simps)

lemma crosses_at_least:
  assumes "en \<in> set (entries_of e)" "target en = r" "12 / 100 \<le> intersectionRatio en"
  shows "crosses (12 / 100) r e"
proof -
  have "(1080863910568919 / 9007199254740992 :: rat) \<le> 12 / 100" by simp
  with assms(3) have "1080863910568919 / 9007199254740992 \<le> intersectionRatio en" by linarith
  then have "js_le (round_double (12 / 100)) (Fin (intersectionRatio en))"
    by (simp only: js_le_threshold)
  with assms(1,2) show ?thesis unfolding crosses_def by blast
qed

text \<open>
  Claim C4. On the observed path (reduced motion inactive, an \<open>IntersectionObserver\<close>),
  with the observer that startup constructs reporting by its threshold: a reveal element
  \<open>r\<close> that is not marked visible at load is observed and stays unmarked through any
  events \<open>es\<close> that bring no notification of \<open>r\<close> at or above 0.12 (12% of its area); the
  first notification \<open>e1\<close> of \<open>r\<close> at or above 0.12 marks it visible and removes it from
  observation; and after any further events \<open>es'\<close> whatever, it is still marked visible
  and still not observed.
\<close>

theorem reveal_one_shot:
  assumes "matchMedia d \<noteq> Some True" and "hasIntersectionObserver d"
    and "r \<in> set (reveals d)" and "\<not> hasClass r ''visible'' d"
    and "\<forall>e \<in> set (es @ [e1]). \<forall>en \<in> set (entries_of e). reports_threshold (startup d) en"
    and "\<forall>e \<in> set es. \<not> crosses (12 / 100) r e" and "crosses (12 / 100) r e1"
  shows "\<not> hasClass r ''visible'' (run es (startup d)) \<and>
         r \<in> observed (run es (startup d)) \<and>
         hasClass r ''visible'' (run (es @ [e1]) (startup d)) \<and>
         r \<notin> observed (run (es @ [e1]) (startup d)) \<and>
         hasClass r ''visible'' (run (es @ e1 # es') (startup d)) \<and>
         r \<notin> observed (run (es @ e1 # es') (startup d))"
proof -
  let ?p = "run es (startup d)"
  have t: "io (startup d) = Some (round_double (12 / 100))"
    using assms(1,2) by (rule startup_observing(1))
  have c: "isIntersecting en = js_le (round_double (12 / 100)) (Fin (intersectionRatio en))"
    if "e \<in> set (es @ [e1])" "en \<in> set (entries_of e)" for e en
    using assms(5) that by (auto simp: reports_threshold_def t)
  have i: "intersecting_for r e = crosses (12 / 100) r e" if "e \<in> set (es @ [e1])" for e
    unfolding intersecting_for_def crosses_def using c[OF that] by blast
  have "\<forall>e \<in> set es. \<not> intersecting_for r e"
    using assms(6) i by simp
  from run_before_reveal[OF this, of "startup d"]
  have b: "\<not> hasClass r ''visible'' ?p" "r \<in> observed ?p"
    using assms(3,4) startup_observing[OF assms(1,2)] by simp_all
  have "io ?p = io (startup d)"
    using run_shape[of es "startup d"] by (rule shapeD)
  then have io: "io ?p \<noteq> None"
    using t by simp
  have "intersecting_for r e1"
    using assms(7) i[of e1] by simp
  with io have f: "hasClass r ''visible'' (handle e1 ?p)" "r \<notin> observed (handle e1 ?p)"
    by (simp_all add: handle_reveal)
  have 1: "run (es @ [e1]) (startup d) = handle e1 ?p"
    by (simp add: run_append run_Cons run_Nil)
  have 2: "run (es @ e1 # es') (startup d) = run es' (handle e1 ?p)"
    by (simp add: run_append run_Cons)
  have l: "hasClass r ''visible'' (run es' (handle e1 ?p))"
    using f(1) by (rule run_visible_mono)
  have m: "r \<notin> observed (run es' (handle e1 ?p))"
    using f(2) run_observed_subset[of es' "handle e1 ?p"] by blast
  show ?thesis
    unfolding 1 2 using b f l m by simp
qed

theorem reveal_one_shot_witness:
  "matchMedia demo_page \<noteq> Some True \<and> hasIntersectionObserver demo_page \<and>
   \<not> hasClass 3 ''visible'' demo_page \<and>
   \<not> hasClass 3 ''visible'' (run [Intersect [demo_below], MouseDown] (startup demo_page)) \<and>
   3 \<in> observed (run [Intersect [demo_below], MouseDown] (startup demo_page)) \<and>
   hasClass 3 ''visible''
     (run ([Intersect [demo_below], MouseDown] @ [Intersect [demo_above]]) (startup demo_page)) \<and>
   hasClass 3 ''visible''
     (run ([Intersect [demo_below], MouseDown] @ Intersect [demo_above] # [Intersect [demo_gone]])
        (startup demo_page)) \<and>
   3 \<notin> observed
     (run ([Intersect [demo_below], MouseDown] @ Intersect [demo_above] # [Intersect [demo_gone]])
        (startup demo_page))"
proof -
  have a: "matchMedia demo_page \<noteq> Some True" and b: "hasIntersectionObserver demo_page"
    and c: "3 \<in> set (reveals demo_page)" and d: "\<not> hasClass 3 ''visible'' demo_page"
    by (simp_all add: demo_page_def hasClass_def blank_def)
  have t: "io (startup demo_page) = Some (round_double (12 / 100))"
    using a b by (rule startup_observing(1))
  have e: "\<forall>e \<in> set ([Intersect [demo_below], MouseDown] @ [Intersect [demo_above]]).
      \<forall>en \<in> set (entries_of e). reports_threshold (startup demo_page) en"
    by (simp add: reports_threshold_def t round_double_literal_012 demo_below_def demo_above_def)
  have f: "\<forall>e \<in> set [Intersect [demo_below], MouseDown]. \<not> crosses (12 / 100) 3 e"
    by (simp add: crosses_def round_double_literal_012 demo_below_def)
  have g: "crosses (12 / 100) 3 (Intersect [demo_above])"
    by (simp add: crosses_def round_double_literal_012 demo_above_def)
  from reveal_one_shot[OF a b c d e f g, of "[Intersect [demo_gone]]"] a b d
  show ?thesis by blast
qed

text \<open>
  Claim C5. If reduced motion is active at startup, or the runtime has no
  \<open>IntersectionObserver\<close>, then startup marks every reveal element visible, constructs no
  observer and registers no observation target; and this stays so after any events.
\<close>

theorem eager_reveal:
  assumes "matchMedia d = Some True \<or> \<not> hasIntersectionObserver d"
  shows "(\<forall>el \<in> set (reveals d). hasClass el ''visible'' (startup d)) \<and>
         observed (startup d) = {} \<and> io (startup d) = None \<and>
         (\<forall>el \<in> set (reveals d). hasClass el ''visible'' (run es (startup d))) \<and>
         observed (run es (startup d)) = {} \<and> io (run es (startup d)) = None"
proof -
  have v: "hasClass el ''visible'' (startup d)" if "el \<in> set (reveals d)" for el
    using that by (simp add: startup_eager(1)[OF assms])
  have o: "observed (startup d) = {}" and i: "io (startup d) = None"
    using startup_eager(2,3)[OF assms] by simp_all
  have "io (run es (startup d)) = io (startup d)"
    using run_shape[of es "startup d"] by (rule shapeD)
  with i have i': "io (run es (startup d)) = None" by simp
  have o': "observed (run es (startup d)) = {}"
    using run_observed_subset[of es "startup d"] o by simp
  show ?thesis
    using v o i i' o' by (simp add: run_visible_mono)
qed

theorem eager_reveal_witness:
  "matchMedia demo_reduced = Some True \<and>
   hasClass 3 ''visible'' (startup demo_reduced) \<and>
   hasClass 4 ''visible'' (startup demo_reduced) \<and>
   observed (startup demo_reduced) = {} \<and>
   hasClass 3 ''visible'' (run [Intersect [], MouseDown] (startup demo_reduced))"
proof -
  have m: "matchMedia demo_reduced = Some True"
    and r: "reveals demo_reduced = [3, 4]"
    by (simp_all add: demo_reduced_def demo_page_def)
  then have "matchMedia demo_reduced = Some True \<or> \<not> hasIntersectionObserver demo_reduced"
    by simp
  from eager_reveal[OF this, of "[Intersect [], MouseDown]"] m show ?thesis
    unfolding r by simp
qed

section \<open>The marquees\<close>

text \<open>
  Claim C3 asks that a marquee is paused while the pointer hovers over it or the focus is
  within it. The script does not keep it so. On the sample page (reduced motion
  inactive), focus enters marquee 0, then the pointer enters it and leaves it: the focus
  is still within, and the marquee was paused before the pointer left, but the leave
  listener has cleared \<open>animationPlayState\<close> of the content and the animation runs.
\<close>

theorem marquee_resumes_while_focused:
  "focus_within 0 [Marquee 0 FocusIn, Marquee 0 PointerEnter, Marquee 0 PointerLeave] \<and>
   spec_paused 0 [Marquee 0 FocusIn, Marquee 0 PointerEnter, Marquee 0 PointerLeave] \<and>
   getStyle 6 ''animationPlayState''
     (run [Marquee 0 FocusIn, Marquee 0 PointerEnter] (startup demo_page)) = Str ''paused'' \<and>
   getStyle 6 ''animationPlayState''
     (run [Marquee 0 FocusIn, Marquee 0 PointerEnter, Marquee 0 PointerLeave] (startup demo_page)) =
     Str ''''"
proof -
  have m: "marquees (run es (startup demo_page)) = [(5, Some 6), (7, None)]" for es
    using shapeD(7)[OF run_shape[of es "startup demo_page"]]
    by (simp add: marquees_startup demo_page_def)
  have s: "run (es @ [e]) p = handle e (run es p)" for es e p
    by (simp add: run_append run_Cons run_Nil)
  have 1: "getStyle 6 ''animationPlayState''
     (run ([Marquee 0 FocusIn] @ [Marquee 0 PointerEnter]) (startup demo_page)) = Str ''paused''"
    unfolding s by (simp add: m marquee_listener_def getStyle_prims)
  have 2: "getStyle 6 ''animationPlayState''
     (run ([Marquee 0 FocusIn, Marquee 0 PointerEnter] @ [Marquee 0 PointerLeave])
        (startup demo_page)) = Str ''''"
    unfolding s by (simp add: m marquee_listener_def getStyle_prims)
  have 3: "focus_within 0 [Marquee 0 FocusIn, Marquee 0 PointerEnter, Marquee 0 PointerLeave]"
    by (simp add: focus_within_def)
  from 1 2 3 show ?thesis
    by (simp add: spec_paused_def)
qed

lemma init_marquee_stopped:
  assumes "stopped c p"
  shows "stopped c (init_marquee m p)"
  using assms by (auto simp: init_marquee_def stopped_def getStyle_prims split: option.split)

lemma init_marquee_stops:
  assumes "prefersReducedMotion p"
  shows "stopped c (init_marquee (m, Some c) p)"
  using assms by (simp add: init_marquee_def stopped_def getStyle_prims)

lemma fold_init_marquee_stops:
  assumes "prefersReducedMotion p" "(m, Some c) \<in> set ms"
  shows "stopped c (fold init_marquee ms p)"
  using assms
proof (induction ms arbitrary: p)
  case Nil
  then show ?case by simp
next
  case (Cons x ms)
  have prm: "prefersReducedMotion (init_marquee x p)"
    using Cons.prems(1) by (simp add: init_marquee_obs[where obs=prefersReducedMotion] setStyle_def)
  show ?case
  proof (cases "x = (m, Some c)")
    case True
    have "stopped c (init_marquee x p)"
      unfolding True using Cons.prems(1) by (rule init_marquee_stops)
    then have "stopped c (fold init_marquee ms (init_marquee x p))"
      by (rule fold_invariant[where I="stopped c", rotated]) (rule init_marquee_stopped)
    then show ?thesis by simp
  next
    case False
    with Cons.prems(2) have "(m, Some c) \<in> set ms" by simp
    from Cons.IH[OF prm this] show ?thesis by simp
  qed
qed

lemma startup_stops:
  assumes "matchMedia d = Some True" "(m, Some c) \<in> set (marquees d)"
  shows "stopped c (startup d)"
proof -
  let ?p = "init_reveal
    (d\<lparr>prefersReducedMotion := (case matchMedia d of None \<Rightarrow> False | Some m \<Rightarrow> m)\<rparr>)"
  have 1: "prefersReducedMotion ?p" and 2: "(m, Some c) \<in> set (marquees ?p)"
    using assms by (simp_all add: init_reveal_frame)
  have "stopped c (init_marquees ?p)"
    unfolding init_marquees_def using 1 2 by (rule fold_init_marquee_stops)
  then show ?thesis
    by (simp add: startup_eq stopped_def getStyle_prims)
qed

lemma handle_stopped:
  assumes "prefersReducedMotion p" "stopped c p"
  shows "stopped c (handle e p)"
  by (rule handle_invariant[where I="stopped c"])
    (use assms in \<open>auto simp: stopped_def getStyle_prims nav_inline_props_def\<close>)

lemma run_stopped:
  assumes "prefersReducedMotion p" "stopped c p"
  shows "stopped c (run es p)"
proof -
  have "prefersReducedMotion (run es p) \<and> stopped c (run es p)"
  proof (rule run_invariant[where I="\<lambda>q. prefersReducedMotion q \<and> stopped c q"])
    show "prefersReducedMotion p \<and> stopped c p" using assms by simp
    fix e q assume "prefersReducedMotion q \<and> stopped c q"
    then show "prefersReducedMotion (handle e q) \<and> stopped c (handle e q)"
      using shapeD(11)[OF handle_shape[of e q]] handle_stopped[of q c e] by simp
  qed
  then show ?thesis by simp
qed

text \<open>
  Claim C6, as amended. If reduced motion is active at startup, then for every marquee
  with a content element, startup assigns \<open>none\<close> to the content's animation and
  \<open>translateX(0)\<close> to its transform, and no event afterwards assigns either property:
  both keep these values after any events. (The pause and resume listeners remain
  installed and still write \<open>animationPlayState\<close>.)
\<close>

theorem marquee_reduced_motion:
  assumes "matchMedia d = Some True" and "(m, Some c) \<in> set (marquees d)"
  shows "getStyle c ''animation'' (run es (startup d)) = Str ''none'' \<and>
         getStyle c ''transform'' (run es (startup d)) = Str ''translateX(0)''"
proof -
  have "prefersReducedMotion (startup d)"
    using assms(1) by (simp add: prefersReducedMotion_startup)
  moreover have "stopped c (startup d)"
    using assms by (rule startup_stops)
  ultimately have "stopped c (run es (startup d))"
    by (rule run_stopped)
  then show ?thesis by (simp add: stopped_def)
qed

theorem marquee_reduced_motion_witness:
  "matchMedia demo_reduced = Some True \<and> (5, Some 6) \<in> set (marquees demo_reduced) \<and>
   getStyle 6 ''animation''
     (run [Marquee 0 PointerEnter, Marquee 0 FocusIn, Marquee 0 PointerLeave] (startup demo_reduced)) =
     Str ''none'' \<and>
   getStyle 6 ''transform''
     (run [Marquee 0 PointerEnter, Marquee 0 FocusIn, Marquee 0 PointerLeave] (startup demo_reduced)) =
     Str ''translateX(0)''"
proof -
  have m: "matchMedia demo_reduced = Some True"
    and c: "(5, Some 6) \<in> set (marquees demo_reduced)"
    by (simp_all add: demo_reduced_def demo_page_def)
  from marquee_reduced_motion[OF m c] m c show ?thesis by blast
qed

text \<open>
  Claim C6 as stated fails: on the sample page with reduced motion active, a pointer
  entering marquee 0 changes the \<open>animationPlayState\<close> of its content from unset to
  \<open>paused\<close>, so the pause and resume listeners are not overridden.
\<close>

theorem marquee_reduced_motion_counterexample:
  "prefersReducedMotion (startup demo_reduced) \<and>
   getStyle 6 ''animationPlayState'' (startup demo_reduced) = Str '''' \<and>
   getStyle 6 ''animationPlayState'' (handle (Marquee 0 PointerEnter) (startup demo_reduced)) =
     Str ''paused''"
proof -
  have m: "marquees (startup demo_reduced) = [(5, Some 6), (7, None)]"
    by (simp add: marquees_startup demo_reduced_def demo_page_def)
  have "getStyle 6 ''animationPlayState'' (startup demo_reduced) =
      getStyle 6 ''animationPlayState'' demo_reduced"
    by (rule getStyle_startup_other) simp_all
  then have 1: "getStyle 6 ''animationPlayState'' (startup demo_reduced) = Str ''''"
    by (simp add: getStyle_def demo_reduced_def demo_page_def blank_def)
  have 2: "getStyle 6 ''animationPlayState'' (handle (Marquee 0 PointerEnter) (startup demo_reduced)) =
     Str ''paused''"
    by (simp add: m marquee_listener_def getStyle_prims)
  have 3: "prefersReducedMotion (startup demo_reduced)"
    by (simp add: prefersReducedMotion_startup demo_reduced_def)
  from 1 2 3 show ?thesis by simp
qed

section \<open>The hero parallax\<close>

lemma getStyle_leaf_move:
  "getStyle el k (leaf_move x y leaf i p) =
     (if el = leaf \<and> k = ''transform''
      then TranslateRotate (js_mul x (depth i)) (js_mul y (depth i))
             (if even i then 6 else - 12)
      else getStyle el k p)"
  by (simp add: leaf_move_def Let_def getStyle_prims even_iff_mod_2_eq_zero)

lemma getStyle_forEach_other:
  assumes "el \<notin> set ls"
  shows "getStyle el k (fold (\<lambda>(i, leaf). leaf_move x y leaf i) (enumerate n ls) p) = getStyle el k p"
  using assms
  by (induction ls arbitrary: n p) (simp_all add: getStyle_leaf_move)

lemma getStyle_forEach_leaf:
  assumes "distinct ls" "i < length ls"
  shows "getStyle (ls ! i) ''transform''
           (fold (\<lambda>(j, leaf). leaf_move x y leaf j) (enumerate n ls) p) =
         TranslateRotate (js_mul x (depth (n + i)))
           (js_mul y (depth (n + i))) (if even (n + i) then 6 else - 12)"
  using assms
proof (induction ls arbitrary: n i p)
  case Nil
  then show ?case by simp
next
  case (Cons l ls)
  show ?case
  proof (cases i)
    case 0
    with Cons.prems show ?thesis
      by (simp add: getStyle_forEach_other getStyle_leaf_move)
  next
    case (Suc j)
    with Cons.prems have "distinct ls" "j < length ls" by simp_all
    from Cons.IH[OF this, of "Suc n"] Suc show ?thesis by simp
  qed
qed

lemma hero_center:
  assumes "0 < rect_width r" "is_double (rect_width r / 2)"
    "clientX e = rect_left r + rect_width r / 2"
    "0 < rect_height r" "is_double (rect_height r / 2)"
    "clientY e = rect_top r + rect_height r / 2"
  shows "hero_x e r = Fin 0" "hero_y e r = Fin 0"
  unfolding hero_x_def hero_y_def
  by (simp_all only: normalized_center[OF assms(1-3)] normalized_center[OF assms(4-6)]
      offset_center)

text \<open>
  Claim C7, as amended. The hero's listeners being installed (a hero, reduced motion
  inactive), a pointer move gives the leaf at index \<open>i\<close> of the query result (each element
  once) the translation \<open>(x * depth, y * depth)\<close> pixels with \<open>depth = (i + 1) * 6\<close>,
  composed with the rotation by 6 degrees for even \<open>i\<close> and -12 degrees for odd \<open>i\<close>, where
  \<open>x\<close> and \<open>y\<close> are the normalized centred offsets and every subtraction, division and
  multiplication is the double-precision operation, rounded to nearest. The depth
  factor is the integer \<open>(i + 1) * 6\<close> itself, a node list having fewer than \<open>2^32\<close>
  elements. At the exact centre of a hero of positive width and height (half of each
  being a double) the offsets are 0 and every translation is \<open>(0, 0)\<close>.
\<close>

theorem hero_parallax:
  assumes "hero_installed p" and "distinct (leaves p)" and "i < length (leaves p)"
    and "length (leaves p) < 2 ^ 32"
  shows "getStyle (leaves p ! i) ''transform'' (handle (HeroPointerMove e r) p) =
           TranslateRotate (js_mul (hero_x e r) (Fin (of_nat ((i + 1) * 6))))
             (js_mul (hero_y e r) (Fin (of_nat ((i + 1) * 6))))
             (if even i then 6 else - 12) \<and>
         depth i = Fin (of_nat ((i + 1) * 6)) \<and>
         (0 < rect_width r \<and> is_double (rect_width r / 2) \<and>
          clientX e = rect_left r + rect_width r / 2 \<and>
          0 < rect_height r \<and> is_double (rect_height r / 2) \<and>
          clientY e = rect_top r + rect_height r / 2 \<longrightarrow>
            hero_x e r = Fin 0 \<and> hero_y e r = Fin 0 \<and>
            getStyle (leaves p ! i) ''transform'' (handle (HeroPointerMove e r) p) =
              TranslateRotate (Fin 0) (Fin 0) (if even i then 6 else - 12))"
proof -
  have d: "depth i = Fin (of_nat ((i + 1) * 6))"
    using assms(3,4) by (rule depth_node_list)
  have "getStyle (leaves p ! i) ''transform'' (handle (HeroPointerMove e r) p) =
           TranslateRotate (js_mul (hero_x e r) (depth i))
             (js_mul (hero_y e r) (depth i))
             (if even i then 6 else - 12)"
    using assms(1) getStyle_forEach_leaf[OF assms(2,3), of "hero_x e r" "hero_y e r" 0 p]
    by (simp add: hero_pointermove_def Let_def)
  then have g: "getStyle (leaves p ! i) ''transform'' (handle (HeroPointerMove e r) p) =
           TranslateRotate (js_mul (hero_x e r) (Fin (of_nat ((i + 1) * 6))))
             (js_mul (hero_y e r) (Fin (of_nat ((i + 1) * 6))))
             (if even i then 6 else - 12)"
    unfolding d .
  show ?thesis
  proof (intro conjI impI)
    show "getStyle (leaves p ! i) ''transform'' (handle (HeroPointerMove e r) p) =
           TranslateRotate (js_mul (hero_x e r) (Fin (of_nat ((i + 1) * 6))))
             (js_mul (hero_y e r) (Fin (of_nat ((i + 1) * 6))))
             (if even i then 6 else - 12)"
      by (rule g)
  next
    show "depth i = Fin (of_nat ((i + 1) * 6))" by (rule d)
  next
    assume c: "0 < rect_width r \<and> is_double (rect_width r / 2) \<and>
          clientX e = rect_left r + rect_width r / 2 \<and>
          0 < rect_height r \<and> is_double (rect_height r / 2) \<and>
          clientY e = rect_top r + rect_height r / 2"
    then have 0: "hero_x e r = Fin 0" "hero_y e r = Fin 0"
      by (simp_all add: hero_center)
    then show "hero_x e r = Fin 0" and "hero_y e r = Fin 0" by simp_all
    show "getStyle (leaves p ! i) ''transform'' (handle (HeroPointerMove e r) p) =
              TranslateRotate (Fin 0) (Fin 0) (if even i then 6 else - 12)"
      unfolding g 0 by (simp add: round_double_0)
  qed
qed

theorem hero_parallax_witness:
  "hero_installed demo_page \<and> distinct (leaves demo_page) \<and> 1 < length (leaves demo_page) \<and>
   length (leaves demo_page) < 2 ^ 32 \<and> depth 1 = Fin 12 \<and>
   getStyle 10 ''transform'' (handle (HeroPointerMove demo_center demo_rect) demo_page) =
     TranslateRotate (Fin 0) (Fin 0) (- 12) \<and>
   getStyle 9 ''transform'' (handle (HeroPointerMove demo_off demo_box) demo_page) =
     TranslateRotate (Fin (4503599627370495 / 4503599627370496))
       (Fin (4503599627370495 / 4503599627370496)) 6"
proof -
  have a: "hero_installed demo_page" and d: "distinct (leaves demo_page)"
    and b: "1 < length (leaves demo_page)" and k: "leaves demo_page ! 1 = 10"
    and b0: "0 < length (leaves demo_page)" and k0: "leaves demo_page ! 0 = 9"
    and n: "length (leaves demo_page) < 2 ^ 32"
    by (simp_all add: demo_page_def hero_installed_def)
  have 1: "getStyle 10 ''transform'' (handle (HeroPointerMove demo_center demo_rect) demo_page) =
     TranslateRotate (Fin 0) (Fin 0) (- 12)"
    using hero_parallax[OF a d b n, of demo_center demo_rect] demo_rect_facts(1)
    unfolding k by (simp add: round_double_0)
  have 3: "depth 1 = Fin 12"
    using hero_parallax[OF a d b n, of demo_center demo_rect] by simp
  have "getStyle 9 ''transform'' (handle (HeroPointerMove demo_off demo_box) demo_page) =
     TranslateRotate (js_mul (hero_x demo_off demo_box) (Fin (of_nat ((0 + 1) * 6))))
       (js_mul (hero_y demo_off demo_box) (Fin (of_nat ((0 + 1) * 6))))
       (if even (0::nat) then 6 else - 12)"
    using hero_parallax[OF a d b0 n, of demo_off demo_box] unfolding k0 by blast
  then have 2: "getStyle 9 ''transform'' (handle (HeroPointerMove demo_off demo_box) demo_page) =
     TranslateRotate (Fin (4503599627370495 / 4503599627370496))
       (Fin (4503599627370495 / 4503599627370496)) 6"
    unfolding demo_off_facts by (simp add: round_double_offsets)
  from a d b n 1 2 3 show ?thesis by blast
qed

text \<open>
  Claim C7 as stated fails: with the pointer at \<open>(2, 2)\<close> over a hero of width and height
  3 at the origin, the offset is \<open>2/3 - 1/2\<close> and the stated translation of leaf 0 is
  exactly \<open>(1, 1)\<close>; the script's doubles give \<open>0.9999999999999998\<close> for both.
\<close>

theorem hero_parallax_counterexample:
  "getStyle 9 ''transform'' (handle (HeroPointerMove demo_off demo_box) demo_page) =
     TranslateRotate (Fin (4503599627370495 / 4503599627370496))
       (Fin (4503599627370495 / 4503599627370496)) 6 \<and>
   getStyle 9 ''transform'' (handle (HeroPointerMove demo_off demo_box) demo_page) \<noteq>
     TranslateRotate
       (Fin (((clientX demo_off - rect_left demo_box) / rect_width demo_box - 1 / 2) * ((0 + 1) * 6)))
       (Fin (((clientY demo_off - rect_top demo_box) / rect_height demo_box - 1 / 2) * ((0 + 1) * 6)))
       6 \<and>
   ((clientX demo_off - rect_left demo_box) / rect_width demo_box - 1 / 2) * ((0 + 1) * 6) = 1"
proof -
  have 1: "getStyle 9 ''transform'' (handle (HeroPointerMove demo_off demo_box) demo_page) =
     TranslateRotate (Fin (4503599627370495 / 4503599627370496))
       (Fin (4503599627370495 / 4503599627370496)) 6"
    by (simp add: hero_installed_def demo_page_def hero_pointermove_def Let_def enumerate_eq_zip
        getStyle_leaf_move demo_off_facts depth_first round_double_offsets upt_rec)
  show ?thesis
    unfolding 1 by (simp add: demo_off_def demo_box_def)
qed

section \<open>The card tilt\<close>

lemma getStyle_card_pointermove:
  "getStyle el ''transform'' (card_pointermove el e r p) =
     PerspectiveRotate (js_mul (js_sub (card_py e r) (Fin (1 / 2))) (Fin 6))
       (js_mul (js_sub (card_px e r) (Fin (1 / 2))) (Fin (- 6)))"
  by (simp add: card_pointermove_def Let_def getStyle_prims)

lemma card_center:
  assumes "0 < rect_width r" "is_double (rect_width r / 2)"
    "clientX e = rect_left r + rect_width r / 2"
    "0 < rect_height r" "is_double (rect_height r / 2)"
    "clientY e = rect_top r + rect_height r / 2"
  shows "card_px e r = Fin (1 / 2)" "card_py e r = Fin (1 / 2)"
  unfolding card_px_def card_py_def
  by (simp_all only: normalized_center[OF assms(1-3)] normalized_center[OF assms(4-6)])

lemma card_corner:
  assumes "0 < rect_width r" "clientX e = rect_left r"
    "0 < rect_height r" "clientY e = rect_top r"
  shows "card_px e r = Fin 0" "card_py e r = Fin 0"
  unfolding card_px_def card_py_def
  by (simp_all only: normalized_corner[OF assms(1,2)] normalized_corner[OF assms(3,4)])

text \<open>
  Claim C8, as amended. Reduced motion inactive, a pointer move over a card sets the
  card's transform to the perspective rotation by \<open>rotateX = (py - 0.5) * 6\<close> and
  \<open>rotateY = (px - 0.5) * -6\<close> degrees, where \<open>px\<close> and \<open>py\<close> are the pointer's normalized
  position over the card's bounding box and every subtraction, division and
  multiplication is the double-precision operation, rounded to nearest. At the exact
  centre of a card of positive width and height (half of each being a double) the
  position is \<open>(0.5, 0.5)\<close> and both angles are 0; at its top-left corner the position is
  \<open>(0, 0)\<close>, \<open>rotateX = -3\<close> and \<open>rotateY = 3\<close>.
\<close>

theorem card_tilt:
  assumes "\<not> prefersReducedMotion p" and "k < length (cards p)"
  shows "getStyle (cards p ! k) ''transform'' (handle (CardPointerMove k e r) p) =
           PerspectiveRotate (js_mul (js_sub (card_py e r) (Fin (1 / 2))) (Fin 6))
             (js_mul (js_sub (card_px e r) (Fin (1 / 2))) (Fin (- 6))) \<and>
         (0 < rect_width r \<and> is_double (rect_width r / 2) \<and>
          clientX e = rect_left r + rect_width r / 2 \<and>
          0 < rect_height r \<and> is_double (rect_height r / 2) \<and>
          clientY e = rect_top r + rect_height r / 2 \<longrightarrow>
            card_px e r = Fin (1 / 2) \<and> card_py e r = Fin (1 / 2) \<and>
            getStyle (cards p ! k) ''transform'' (handle (CardPointerMove k e r) p) =
              PerspectiveRotate (Fin 0) (Fin 0)) \<and>
         (0 < rect_width r \<and> clientX e = rect_left r \<and>
          0 < rect_height r \<and> clientY e = rect_top r \<longrightarrow>
            card_px e r = Fin 0 \<and> card_py e r = Fin 0 \<and>
            getStyle (cards p ! k) ''transform'' (handle (CardPointerMove k e r) p) =
              PerspectiveRotate (Fin (- 3)) (Fin 3))"
proof -
  have g: "getStyle (cards p ! k) ''transform'' (handle (CardPointerMove k e r) p) =
           PerspectiveRotate (js_mul (js_sub (card_py e r) (Fin (1 / 2))) (Fin 6))
             (js_mul (js_sub (card_px e r) (Fin (1 / 2))) (Fin (- 6)))"
    using assms by (simp add: getStyle_card_pointermove)
  show ?thesis
  proof (intro conjI impI)
    show "getStyle (cards p ! k) ''transform'' (handle (CardPointerMove k e r) p) =
           PerspectiveRotate (js_mul (js_sub (card_py e r) (Fin (1 / 2))) (Fin 6))
             (js_mul (js_sub (card_px e r) (Fin (1 / 2))) (Fin (- 6)))"
      by (rule g)
  next
    assume "0 < rect_width r \<and> is_double (rect_width r / 2) \<and>
          clientX e = rect_left r + rect_width r / 2 \<and>
          0 < rect_height r \<and> is_double (rect_height r / 2) \<and>
          clientY e = rect_top r + rect_height r / 2"
    then have c: "card_px e r = Fin (1 / 2)" "card_py e r = Fin (1 / 2)"
      by (simp_all add: card_center)
    then show "card_px e r = Fin (1 / 2)" and "card_py e r = Fin (1 / 2)" by simp_all
    show "getStyle (cards p ! k) ''transform'' (handle (CardPointerMove k e r) p) =
              PerspectiveRotate (Fin 0) (Fin 0)"
      unfolding g c tilt_center by (rule refl)
  next
    assume "0 < rect_width r \<and> clientX e = rect_left r \<and>
          0 < rect_height r \<and> clientY e = rect_top r"
    then have c: "card_px e r = Fin 0" "card_py e r = Fin 0"
      by (simp_all add: card_corner)
    then show "card_px e r = Fin 0" and "card_py e r = Fin 0" by simp_all
    show "getStyle (cards p ! k) ''transform'' (handle (CardPointerMove k e r) p) =
              PerspectiveRotate (Fin (- 3)) (Fin 3)"
      unfolding g c tilt_corner by (rule refl)
  qed
qed

theorem card_tilt_witness:
  "\<not> prefersReducedMotion demo_page \<and> 1 < length (cards demo_page) \<and>
   getStyle 13 ''transform'' (handle (CardPointerMove 1 demo_center demo_rect) demo_page) =
     PerspectiveRotate (Fin 0) (Fin 0) \<and>
   getStyle 13 ''transform'' (handle (CardPointerMove 1 demo_corner demo_rect) demo_page) =
     PerspectiveRotate (Fin (- 3)) (Fin 3) \<and>
   getStyle 13 ''transform'' (handle (CardPointerMove 1 demo_off demo_box) demo_page) =
     PerspectiveRotate (Fin (4503599627370495 / 4503599627370496))
       (Fin (- (4503599627370495 / 4503599627370496)))"
proof -
  have a: "\<not> prefersReducedMotion demo_page" and b: "1 < length (cards demo_page)"
    and k: "cards demo_page ! 1 = 13"
    by (simp_all add: demo_page_def)
  have 1: "getStyle 13 ''transform'' (handle (CardPointerMove 1 demo_center demo_rect) demo_page) =
     PerspectiveRotate (Fin 0) (Fin 0)"
    using card_tilt[OF a b, of demo_center demo_rect] demo_rect_facts(1) unfolding k by blast
  have 2: "getStyle 13 ''transform'' (handle (CardPointerMove 1 demo_corner demo_rect) demo_page) =
     PerspectiveRotate (Fin (- 3)) (Fin 3)"
    using card_tilt[OF a b, of demo_corner demo_rect] demo_rect_facts(2) unfolding k by blast
  have "getStyle 13 ''transform'' (handle (CardPointerMove 1 demo_off demo_box) demo_page) =
     PerspectiveRotate (js_mul (js_sub (card_py demo_off demo_box) (Fin (1 / 2))) (Fin 6))
       (js_mul (js_sub (card_px demo_off demo_box) (Fin (1 / 2))) (Fin (- 6)))"
    using card_tilt[OF a b, of demo_off demo_box] unfolding k by blast
  then have 3: "getStyle 13 ''transform'' (handle (CardPointerMove 1 demo_off demo_box) demo_page) =
     PerspectiveRotate (Fin (4503599627370495 / 4503599627370496))
       (Fin (- (4503599627370495 / 4503599627370496)))"
    unfolding demo_off_facts demo_off_offset demo_off_times .
  from a b 1 2 3 show ?thesis by blast
qed

text \<open>
  Claim C8 as stated fails: with the pointer at \<open>(2, 2)\<close> over a card of width and height
  3 at the origin, \<open>px = py = 2/3\<close> lies in \<open>[0, 1]\<close> and the stated angles are exactly
  \<open>rotateX = 1\<close> and \<open>rotateY = -1\<close>; the script's doubles give \<open>0.9999999999999998\<close> and
  \<open>-0.9999999999999998\<close>.
\<close>

theorem card_tilt_counterexample:
  "getStyle 13 ''transform'' (handle (CardPointerMove 1 demo_off demo_box) demo_page) =
     PerspectiveRotate (Fin (4503599627370495 / 4503599627370496))
       (Fin (- (4503599627370495 / 4503599627370496))) \<and>
   getStyle 13 ''transform'' (handle (CardPointerMove 1 demo_off demo_box) demo_page) \<noteq>
     PerspectiveRotate
       (Fin (((clientY demo_off - rect_top demo_box) / rect_height demo_box - 1 / 2) * 6))
       (Fin (((clientX demo_off - rect_left demo_box) / rect_width demo_box - 1 / 2) * - 6)) \<and>
   ((clientY demo_off - rect_top demo_box) / rect_height demo_box - 1 / 2) * 6 = 1 \<and>
   ((clientX demo_off - rect_left demo_box) / rect_width demo_box - 1 / 2) * - 6 = - 1"
proof -
  have 1: "getStyle 13 ''transform'' (handle (CardPointerMove 1 demo_off demo_box) demo_page) =
     PerspectiveRotate (Fin (4503599627370495 / 4503599627370496))
       (Fin (- (4503599627370495 / 4503599627370496)))"
    by (simp add: demo_page_def getStyle_card_pointermove demo_off_facts round_double_offsets)
  show ?thesis
    unfolding 1 by (simp add: demo_off_def demo_box_def)
qed

section \<open>The input modality\<close>

lemma handle_Tab:
  "usingKeyboard (handle (KeyDown ''Tab'') p) \<and>
   hasClass (documentElement p) ''using-keyboard'' (handle (KeyDown ''Tab'') p)"
proof -
  let ?q = "if nav_installed p then document_keydown_listener ''Tab'' p else p"
  have "shape (document_keydown_listener ''Tab'' p) = shape p"
    by (rule document_keydown_listener_invariant[where I="\<lambda>q. shape q = shape p"])
      (simp_all add: shape_prims)
  then have "shape ?q = shape p"
    by simp
  then have "documentElement ?q = documentElement p"
    by (rule shapeD)
  then show ?thesis
    by (simp add: window_keydown_listener_def hasClass_prims usingKeyboard_prims)
qed

lemma handle_MouseDown:
  "handle MouseDown p =
     (if usingKeyboard p
      then classList_remove (documentElement p) ''using-keyboard'' (p\<lparr>usingKeyboard := False\<rparr>)
      else p)"
  by (simp add: window_mousedown_listener_def)

lemma handle_other_modality:
  assumes "e \<noteq> KeyDown ''Tab''" "e \<noteq> MouseDown"
  shows "usingKeyboard (handle e p) = usingKeyboard p \<and>
     hasClass el ''using-keyboard'' (handle e p) = hasClass el ''using-keyboard'' p"
  by (rule handle_invariant[where I="\<lambda>q. usingKeyboard q = usingKeyboard p \<and>
        hasClass el ''using-keyboard'' q = hasClass el ''using-keyboard'' p"])
    (simp_all add: assms usingKeyboard_prims hasClass_prims)

lemma handle_not_usingKeyboard:
  assumes "e \<noteq> KeyDown ''Tab''" "\<not> usingKeyboard p"
  shows "\<not> usingKeyboard (handle e p)"
  by (rule handle_invariant[where I="\<lambda>q. \<not> usingKeyboard q"])
    (simp_all add: assms usingKeyboard_prims)

lemma run_not_usingKeyboard:
  assumes "KeyDown ''Tab'' \<notin> set es" "\<not> usingKeyboard p"
  shows "\<not> usingKeyboard (run es p)"
  using assms
proof (induction es arbitrary: p)
  case Nil
  then show ?case by (simp add: run_Nil)
next
  case (Cons e es)
  from Cons.prems have "\<not> usingKeyboard (handle e p)"
    by (intro handle_not_usingKeyboard) auto
  with Cons show ?case by (simp add: run_Cons)
qed

text \<open>
  Claim C9. A Tab key press sets \<open>usingKeyboard\<close> and puts the class
  \<open>using-keyboard\<close> on the document element. A mouse-down while \<open>usingKeyboard\<close> is set
  clears the flag and removes the class; while it is not set, a mouse-down leaves the
  page as it is, and so after startup, as long as no Tab was pressed, the flag is unset
  and a mouse-down is a no-op. No other event changes the flag or the class.
\<close>

theorem modality_tracker:
  "usingKeyboard (handle (KeyDown ''Tab'') p) \<and>
   hasClass (documentElement p) ''using-keyboard'' (handle (KeyDown ''Tab'') p) \<and>
   (usingKeyboard p \<longrightarrow>
      \<not> usingKeyboard (handle MouseDown p) \<and>
      \<not> hasClass (documentElement p) ''using-keyboard'' (handle MouseDown p)) \<and>
   (\<not> usingKeyboard p \<longrightarrow> handle MouseDown p = p) \<and>
   (KeyDown ''Tab'' \<notin> set es \<longrightarrow>
      \<not> usingKeyboard (run es (startup d)) \<and>
      handle MouseDown (run es (startup d)) = run es (startup d)) \<and>
   (e \<noteq> KeyDown ''Tab'' \<and> e \<noteq> MouseDown \<longrightarrow>
      usingKeyboard (handle e p) = usingKeyboard p \<and>
      hasClass (documentElement p) ''using-keyboard'' (handle e p) =
        hasClass (documentElement p) ''using-keyboard'' p)"
proof (intro conjI impI)
  show "usingKeyboard (handle (KeyDown ''Tab'') p)"
    and "hasClass (documentElement p) ''using-keyboard'' (handle (KeyDown ''Tab'') p)"
    using handle_Tab[of p] by simp_all
next
  assume "usingKeyboard p"
  then show "\<not> usingKeyboard (handle MouseDown p)"
    and "\<not> hasClass (documentElement p) ''using-keyboard'' (handle MouseDown p)"
    unfolding handle_MouseDown by (simp_all add: usingKeyboard_prims hasClass_prims)
next
  assume "\<not> usingKeyboard p"
  then show "handle MouseDown p = p"
    unfolding handle_MouseDown by simp
next
  assume t: "KeyDown ''Tab'' \<notin> set es"
  then show u: "\<not> usingKeyboard (run es (startup d))"
    using usingKeyboard_startup by (rule run_not_usingKeyboard)
  then show "handle MouseDown (run es (startup d)) = run es (startup d)"
    unfolding handle_MouseDown by simp
next
  assume "e \<noteq> KeyDown ''Tab'' \<and> e \<noteq> MouseDown"
  then show "usingKeyboard (handle e p) = usingKeyboard p"
    and "hasClass (documentElement p) ''using-keyboard'' (handle e p) =
        hasClass (documentElement p) ''using-keyboard'' p"
    using handle_other_modality[where e=e and el="documentElement p" and p=p] by simp_all
qed

theorem modality_tracker_witness:
  "usingKeyboard (handle (KeyDown ''Tab'') demo_page) \<and>
   \<not> usingKeyboard (handle MouseDown (handle (KeyDown ''Tab'') demo_page)) \<and>
   \<not> usingKeyboard demo_page \<and>
   handle MouseDown demo_page = demo_page \<and>
   handle MouseDown (run [KeyDown ''Escape'', MouseDown] (startup demo_page)) =
     run [KeyDown ''Escape'', MouseDown] (startup demo_page) \<and>
   usingKeyboard (handle (KeyDown ''Escape'') (handle (KeyDown ''Tab'') demo_page))"
proof -
  let ?t = "handle (KeyDown ''Tab'') demo_page"
  have n: "\<not> usingKeyboard demo_page"
    by (simp add: demo_page_def)
  have 1: "usingKeyboard ?t"
    using modality_tracker[of demo_page "[]" demo_page MouseDown] by blast
  have 2: "\<not> usingKeyboard (handle MouseDown ?t)"
    using modality_tracker[of ?t "[]" demo_page MouseDown] 1 by blast
  have 3: "handle MouseDown demo_page = demo_page"
    using modality_tracker[of demo_page "[]" demo_page MouseDown] n by blast
  have "KeyDown ''Tab'' \<notin> set [KeyDown ''Escape'', MouseDown]"
    by simp
  then have 4: "handle MouseDown (run [KeyDown ''Escape'', MouseDown] (startup demo_page)) =
     run [KeyDown ''Escape'', MouseDown] (startup demo_page)"
    using modality_tracker[of demo_page "[KeyDown ''Escape'', MouseDown]" demo_page MouseDown]
    by blast
  have "KeyDown ''Escape'' \<noteq> KeyDown ''Tab'' \<and> KeyDown ''Escape'' \<noteq> MouseDown"
    by simp
  then have 5: "usingKeyboard (handle (KeyDown ''Escape'') ?t)"
    using modality_tracker[of ?t "[]" demo_page "KeyDown ''Escape''"] 1 by blast
  from 1 2 n 3 4 5 show ?thesis by blast
qed

end
